theory Spec2Isabelle
  imports Complex_Main "HOL-Library.Char_ord" "HOL-Library.List_Lexorder"
begin

section \<open>sc2shp: GPS packets to a spatial dataset\<close>

text \<open>
  The repository is one Python function, \<^verbatim>\<open>parse_data\<close> of \<^verbatim>\<open>sc2shp.py\<close>. It checks the
  two paths, loads the JSON document, turns every packet into a DataFrame inside a
  \<^verbatim>\<open>try\<close>, concatenates the frames, parses the timestamps, builds a GeoDataFrame, prints a
  report per user and writes a GeoPackage.

  The embedding follows the function line by line. Python exceptions are values of the
  type \<open>error\<close>, and a computation that may raise returns \<open>error + 'a\<close> with \<open>Inl\<close> for
  the exception. What the function prints is a list of events, and what it leaves behind
  (exit status, file written) is a record. The builtins and library calls whose code is
  not in the repository (\<^verbatim>\<open>float\<close>, \<^verbatim>\<open>int\<close>, \<^verbatim>\<open>open\<close>/\<^verbatim>\<open>json.load\<close>, \<^verbatim>\<open>to_datetime\<close>, the sort
  behind \<^verbatim>\<open>sort_values\<close>, \<^verbatim>\<open>to_file\<close>) are fields of a record \<open>library\<close> that every
  operation takes as its first argument: the theorems hold for every such library.
\<close>

subsection \<open>Exceptions\<close>

datatype cause =
    NotAFloat string
  | NotAnInt string
  | UnequalLengths
  | NothingToConcatenate
  | OtherCause string

datatype error =
    KeyError string
  | ValueError cause
  | FileNotFoundError
  | DriverIOError string
  | OtherError string

text \<open>The clause \<^verbatim>\<open>except (KeyError, ValueError)\<close> of line 63.\<close>

fun caught :: "error \<Rightarrow> bool" where
  "caught (KeyError k) = True"
| "caught (ValueError c) = True"
| "caught e = False"

definition and_then :: "error + 'a \<Rightarrow> ('a \<Rightarrow> error + 'b) \<Rightarrow> error + 'b" where
  "and_then m f = (case m of Inl e \<Rightarrow> Inl e | Inr x \<Rightarrow> f x)"

subsection \<open>Packets\<close>

text \<open>
  A packet is a JSON object. The six fields have the types the data model gives them:
  \<^verbatim>\<open>user_id\<close> and \<^verbatim>\<open>device_details\<close> are strings, the other four are sequences of
  strings. A field that the object does not have is \<open>None\<close>; reading it with \<^verbatim>\<open>d[k]\<close>
  raises \<^verbatim>\<open>KeyError\<close>.
\<close>

record packet =
  user_id :: "string option"
  longitude :: "string list option"
  latitude :: "string list option"
  timestamp :: "string list option"
  accuracy :: "string list option"
  device_details :: "string option"

definition getitem :: "string \<Rightarrow> 'a option \<Rightarrow> error + 'a" where
  "getitem k v = (case v of None \<Rightarrow> Inl (KeyError k) | Some x \<Rightarrow> Inr x)"

subsection \<open>Strings\<close>

text \<open>
  \<^verbatim>\<open>s.replace(old, new)\<close>: every occurrence of \<open>old\<close> found by a scan from the left, without
  overlap, becomes \<open>new\<close>. With an empty \<open>old\<close> Python puts \<open>new\<close> before every character
  and at the end.
\<close>

function replace :: "string \<Rightarrow> string \<Rightarrow> string \<Rightarrow> string" where
  "replace [] new s = new @ concat (map (\<lambda>c. c # new) s)"
| "replace (a # old) new [] = []"
| "replace (a # old) new (c # s) =
     (if take (Suc (length old)) (c # s) = a # old
      then new @ replace (a # old) new (drop (length old) s)
      else c # replace (a # old) new s)"
  by pat_completeness auto
termination
  by (relation "measure (\<lambda>(old, new, s). length s)") auto

text \<open>\<^verbatim>\<open>path[-5:]\<close>: the last five characters, or the whole string when it is shorter.\<close>

definition last5 :: "string \<Rightarrow> string" where
  "last5 s = drop (length s - 5) s"

subsection \<open>Frames\<close>

text \<open>
  A DataFrame is a list of named columns, in column order; a column holds values of one
  kind. The row index is left out: no line of the function reads it.
\<close>

record 'f point =
  px :: 'f
  py :: 'f

definition Point :: "'f \<times> 'f \<Rightarrow> 'f point" where
  "Point ll = \<lparr>px = fst ll, py = snd ll\<rparr>"

datatype ('f, 't) column =
    StrCol "string list"
  | FloatCol "'f list"
  | IntCol "int list"
  | TimeCol "'t option list"
  | GeomCol "'f point list"

type_synonym ('f, 't) frame = "(string \<times> ('f, 't) column) list"

fun col_len :: "('f, 't) column \<Rightarrow> nat" where
  "col_len (StrCol xs) = length xs"
| "col_len (FloatCol xs) = length xs"
| "col_len (IntCol xs) = length xs"
| "col_len (TimeCol xs) = length xs"
| "col_len (GeomCol xs) = length xs"

text \<open>\<^verbatim>\<open>len(df.index)\<close>: the number of rows.\<close>

definition nrows :: "('f, 't) frame \<Rightarrow> nat" where
  "nrows df = (case df of [] \<Rightarrow> 0 | (n, c) # rest \<Rightarrow> col_len c)"

text \<open>
  \<^verbatim>\<open>DataFrame({name: list, ...})\<close>: the lists must have one length, otherwise pandas
  raises \<^verbatim>\<open>ValueError\<close> (all arrays must be of the same length).
\<close>

definition DataFrame :: "('f, 't) frame \<Rightarrow> error + ('f, 't) frame" where
  "DataFrame cols =
     (if list_all (\<lambda>(n, c). col_len c = nrows cols) cols then Inr cols
      else Inl (ValueError UnequalLengths))"

text \<open>The rows of a frame, for reading a frame record by record.\<close>

datatype ('f, 't) cell =
    StrCell string
  | FloatCell 'f
  | IntCell int
  | TimeCell "'t option"
  | GeomCell "'f point"

fun cells :: "('f, 't) column \<Rightarrow> ('f, 't) cell list" where
  "cells (StrCol xs) = map StrCell xs"
| "cells (FloatCol xs) = map FloatCell xs"
| "cells (IntCol xs) = map IntCell xs"
| "cells (TimeCol xs) = map TimeCell xs"
| "cells (GeomCol xs) = map GeomCell xs"

definition row :: "('f, 't) frame \<Rightarrow> nat \<Rightarrow> (string \<times> ('f, 't) cell) list" where
  "row df i = map (\<lambda>(n, c). (n, cells c ! i)) df"

definition rows :: "('f, 't) frame \<Rightarrow> (string \<times> ('f, 't) cell) list list" where
  "rows df = map (row df) [0..<nrows df]"

text \<open>
  \<^verbatim>\<open>concat(dfs)\<close> puts the rows of the frames one after the other, and raises
  \<^verbatim>\<open>ValueError\<close> (no objects to concatenate) on the empty list. Every frame the function
  hands to it comes from the dictionary of lines 55 to 62, so all of them have the same
  columns; \<open>stack\<close> covers that case and only that case, and a list of frames with
  different columns is reported as outside the model (\<open>OtherError\<close>).
\<close>

fun col_append :: "('f, 't) column \<Rightarrow> ('f, 't) column \<Rightarrow> ('f, 't) column option" where
  "col_append (StrCol xs) (StrCol ys) = Some (StrCol (xs @ ys))"
| "col_append (FloatCol xs) (FloatCol ys) = Some (FloatCol (xs @ ys))"
| "col_append (IntCol xs) (IntCol ys) = Some (IntCol (xs @ ys))"
| "col_append (TimeCol xs) (TimeCol ys) = Some (TimeCol (xs @ ys))"
| "col_append (GeomCol xs) (GeomCol ys) = Some (GeomCol (xs @ ys))"
| "col_append c c' = None"

fun stack :: "('f, 't) frame \<Rightarrow> ('f, 't) frame \<Rightarrow> ('f, 't) frame option" where
  "stack [] [] = Some []"
| "stack ((n, c) # a) ((m, c') # b) =
     (if n = m
      then (case col_append c c' of
              None \<Rightarrow> None
            | Some cc \<Rightarrow> (case stack a b of None \<Rightarrow> None | Some r \<Rightarrow> Some ((n, cc) # r)))
      else None)"
| "stack a b = None"

fun concat_frames :: "('f, 't) frame list \<Rightarrow> error + ('f, 't) frame" where
  "concat_frames [] = Inl (ValueError NothingToConcatenate)"
| "concat_frames [df] = Inr df"
| "concat_frames (df # dfs) =
     (case concat_frames dfs of
        Inl e \<Rightarrow> Inl e
      | Inr rest \<Rightarrow>
          (case stack df rest of
             None \<Rightarrow> Inl (OtherError ''concat of frames with different columns'')
           | Some r \<Rightarrow> Inr r))"

text \<open>Reading a column: \<^verbatim>\<open>df[name]\<close> raises \<^verbatim>\<open>KeyError\<close> when there is no such column.\<close>

definition get_column :: "('f, 't) frame \<Rightarrow> string \<Rightarrow> error + ('f, 't) column" where
  "get_column df n = getitem n (map_of df n)"

text \<open>
  \<^verbatim>\<open>df[name] = values\<close>: the column is replaced where it stands, or added as the last
  column when the frame has none of that name.
\<close>

fun set_column :: "('f, 't) frame \<Rightarrow> string \<Rightarrow> ('f, 't) column \<Rightarrow> ('f, 't) frame" where
  "set_column [] n c = [(n, c)]"
| "set_column ((m, c') # df) n c =
     (if m = n then (n, c) # df else (m, c') # set_column df n c)"

text \<open>\<^verbatim>\<open>df.drop(names, axis=1)\<close>: \<^verbatim>\<open>KeyError\<close> when one of the names is not a column.\<close>

definition drop_columns :: "string list \<Rightarrow> ('f, 't) frame \<Rightarrow> error + ('f, 't) frame" where
  "drop_columns names df =
     (case filter (\<lambda>n. map_of df n = None) names of
        [] \<Rightarrow> Inr (filter (\<lambda>(n, c). n \<notin> set names) df)
      | n # rest \<Rightarrow> Inl (KeyError n))"

subsection \<open>The spatial dataset, the report and the library\<close>

record ('f, 't) geoframe =
  table :: "('f, 't) frame"
  crs :: string

text \<open>One line of the report of lines 92 to 97.\<close>

record 't user_stats =
  user :: string
  First_Log :: "'t option"
  Last_Log :: "'t option"
  N_Logs :: nat

record 't user_line =
  user_id' :: string
  First_Log' :: "'t option"
  Last_Log' :: "'t option"
  N_Logs' :: nat
  device_details' :: "string option"

text \<open>What the function prints, in order.\<close>

datatype 't event =
    Print string
  | PrintRetrieved nat
  | PrintRecords nat
  | PrintError error
  | PrintValue string
  | PrintSeq "string list"
  | PrintBlank
  | PrintReport "'t user_line list"

datatype load_result = NotFound | LoadFailed error | Loaded "packet list"

text \<open>
  The calls into Python and its libraries, as the function uses them:
  \<^item> \<open>py_float s\<close> is \<^verbatim>\<open>float(s)\<close> and \<open>py_int s\<close> is \<^verbatim>\<open>int(s)\<close>, \<open>None\<close> when they raise
    \<^verbatim>\<open>ValueError\<close>;
  \<^item> \<open>load_json path\<close> is lines 42 and 43 with the lookup \<^verbatim>\<open>data['packets']\<close>:
    \<open>NotFound\<close> when \<^verbatim>\<open>open\<close> raises \<^verbatim>\<open>FileNotFoundError\<close>, \<open>LoadFailed\<close> for any other
    exception;
  \<^item> \<open>to_datetime col\<close> is \<^verbatim>\<open>to_datetime(col, infer_datetime_format=True)\<close> on the whole
    column, a null date being \<open>None\<close>;
  \<^item> \<open>sort_indexer keys\<close> is the order in which
    \<^verbatim>\<open>sort_values(['N_Logs'], ascending=False)\<close> puts the positions of its rows, with the
    sort algorithm pandas uses when no \<^verbatim>\<open>kind\<close> is given;
  \<^item> \<open>to_file path gdf\<close> is the write of line 112, \<open>None\<close> when it succeeds.
\<close>

record ('f, 't) library =
  py_float :: "string \<Rightarrow> 'f option"
  py_int :: "string \<Rightarrow> int option"
  load_json :: "string \<Rightarrow> load_result"
  to_datetime :: "string list \<Rightarrow> error + 't option list"
  sort_indexer :: "nat list \<Rightarrow> nat list"
  to_file :: "string \<Rightarrow> ('f, 't) geoframe \<Rightarrow> error option"

subsection \<open>Lines 54 to 73: one packet\<close>

text \<open>
  The coercions of lines 57, 58 and 60. A list comprehension stops at the first element
  that raises.
\<close>

definition to_float :: "('f, 't) library \<Rightarrow> string \<Rightarrow> error + 'f" where
  "to_float L n =
     (let s = replace '','' ''.'' n
      in case py_float L s of None \<Rightarrow> Inl (ValueError (NotAFloat s)) | Some x \<Rightarrow> Inr x)"

definition to_int :: "('f, 't) library \<Rightarrow> string \<Rightarrow> error + int" where
  "to_int L n = (case py_int L n of None \<Rightarrow> Inl (ValueError (NotAnInt n)) | Some x \<Rightarrow> Inr x)"

fun convert_all :: "(string \<Rightarrow> error + 'a) \<Rightarrow> string list \<Rightarrow> error + 'a list" where
  "convert_all f [] = Inr []"
| "convert_all f (n # ns) =
     (case f n of
        Inl e \<Rightarrow> Inl e
      | Inr v \<Rightarrow> (case convert_all f ns of Inl e \<Rightarrow> Inl e | Inr vs \<Rightarrow> Inr (v # vs)))"

text \<open>
  The body of the \<^verbatim>\<open>try\<close>, lines 55 to 62. The dictionary is evaluated entry by entry, so
  the first field that is missing or does not convert decides the exception; the lengths
  are compared last, by the constructor.
\<close>

definition build_frame :: "('f, 't) library \<Rightarrow> packet \<Rightarrow> error + ('f, 't) frame" where
  "build_frame L d =
     and_then (getitem ''user_id'' (user_id d)) (\<lambda>uid.
     and_then (getitem ''longitude'' (longitude d)) (\<lambda>lon.
     and_then (convert_all (to_float L) lon) (\<lambda>lons.
     and_then (getitem ''latitude'' (latitude d)) (\<lambda>lat.
     and_then (convert_all (to_float L) lat) (\<lambda>lats.
     and_then (getitem ''timestamp'' (timestamp d)) (\<lambda>ts.
     and_then (getitem ''accuracy'' (accuracy d)) (\<lambda>acc.
     and_then (convert_all (to_int L) acc) (\<lambda>accs.
     and_then (getitem ''device_details'' (device_details d)) (\<lambda>dev.
     DataFrame
       [(''user_id'', StrCol (replicate (length lon) uid)),
        (''longitude'', FloatCol lons),
        (''latitude'', FloatCol lats),
        (''timestamp'', StrCol ts),
        (''accuracy'', IntCol accs),
        (''device_details'', StrCol (replicate (length lon) dev))])))))))))"

text \<open>
  The handler with \<^verbatim>\<open>debug\<close> set, lines 65 to 72: the exception, then the six fields read
  again with \<^verbatim>\<open>d[k]\<close>, then an empty line. \<open>print_fields\<close> returns what was printed and
  the exception that stopped the printing, if one did.
\<close>

fun print_fields :: "(string \<times> 't event option) list \<Rightarrow> 't event list \<times> error option" where
  "print_fields [] = ([PrintBlank], None)"
| "print_fields ((k, None) # fs) = ([], Some (KeyError k))"
| "print_fields ((k, Some ev) # fs) =
     (case print_fields fs of (evs, r) \<Rightarrow> (ev # evs, r))"

definition debug_print :: "packet \<Rightarrow> error \<Rightarrow> 't event list \<times> error option" where
  "debug_print d e =
     (case print_fields
             [(''user_id'', map_option PrintValue (user_id d)),
              (''longitude'', map_option PrintSeq (longitude d)),
              (''latitude'', map_option PrintSeq (latitude d)),
              (''timestamp'', map_option PrintSeq (timestamp d)),
              (''accuracy'', map_option PrintSeq (accuracy d)),
              (''device_details'', map_option PrintValue (device_details d))]
      of (evs, r) \<Rightarrow> (PrintError e # evs, r))"

text \<open>
  One turn of the loop. \<open>Accepted\<close>: the frame is appended to \<^verbatim>\<open>dfs\<close>. \<open>Rejected\<close>: the
  handler reached \<^verbatim>\<open>continue\<close>, having printed the events. \<open>Raised\<close>: an exception left
  the loop body.
\<close>

datatype ('f, 't) expansion =
    Accepted "('f, 't) frame"
  | Rejected "'t event list"
  | Raised "'t event list" error

definition expand_packet :: "('f, 't) library \<Rightarrow> bool \<Rightarrow> packet \<Rightarrow> ('f, 't) expansion" where
  "expand_packet L debug d =
     (case build_frame L d of
        Inr df \<Rightarrow> Accepted df
      | Inl e \<Rightarrow>
          if caught e
          then (if debug
                then (case debug_print d e of
                        (evs, None) \<Rightarrow> Rejected evs
                      | (evs, Some e') \<Rightarrow> Raised evs e')
                else Rejected [])
          else Raised [] e)"

text \<open>
  The loop of lines 50 to 73: the frames appended to \<^verbatim>\<open>dfs\<close>, the events printed, and the
  exception that ended the loop early, if one did.
\<close>

fun expand_all ::
  "('f, 't) library \<Rightarrow> bool \<Rightarrow> packet list \<Rightarrow> ('f, 't) frame list
     \<Rightarrow> ('f, 't) frame list \<times> 't event list \<times> error option" where
  "expand_all L debug [] dfs = (dfs, [], None)"
| "expand_all L debug (d # ds) dfs =
     (case expand_packet L debug d of
        Accepted df \<Rightarrow> expand_all L debug ds (dfs @ [df])
      | Rejected evs \<Rightarrow>
          (case expand_all L debug ds dfs of (fs, out, r) \<Rightarrow> (fs, evs @ out, r))
      | Raised evs e \<Rightarrow> (dfs, evs, Some e))"

subsection \<open>Lines 75 to 87: the dataset and its geometry\<close>

text \<open>
  The function reads each column as the kind of value lines 55 to 62 put there. A column
  of another kind cannot come out of those lines and is reported as outside the model.
\<close>

definition str_column :: "('f, 't) frame \<Rightarrow> string \<Rightarrow> error + string list" where
  "str_column df n =
     and_then (get_column df n)
       (\<lambda>c. case c of StrCol xs \<Rightarrow> Inr xs | _ \<Rightarrow> Inl (OtherError ''not a column of strings''))"

definition float_column :: "('f, 't) frame \<Rightarrow> string \<Rightarrow> error + 'f list" where
  "float_column df n =
     and_then (get_column df n)
       (\<lambda>c. case c of FloatCol xs \<Rightarrow> Inr xs | _ \<Rightarrow> Inl (OtherError ''not a column of floats''))"

definition time_column :: "('f, 't) frame \<Rightarrow> string \<Rightarrow> error + 't option list" where
  "time_column df n =
     and_then (get_column df n)
       (\<lambda>c. case c of TimeCol xs \<Rightarrow> Inr xs | _ \<Rightarrow> Inl (OtherError ''not a column of dates''))"

text \<open>
  Line 80: \<^verbatim>\<open>df['timestamp'] = to_datetime(df['timestamp'], ...)\<close>. Nothing catches what
  \<^verbatim>\<open>to_datetime\<close> raises. The assignment needs as many values as the frame has rows.
\<close>

definition parse_timestamps ::
  "('f, 't) library \<Rightarrow> ('f, 't) frame \<Rightarrow> error + ('f, 't) frame" where
  "parse_timestamps L df =
     and_then (str_column df ''timestamp'') (\<lambda>ts.
     and_then (to_datetime L ts) (\<lambda>dts.
     if length dts = nrows df then Inr (set_column df ''timestamp'' (TimeCol dts))
     else Inl (ValueError UnequalLengths)))"

text \<open>
  \<^verbatim>\<open>GeoDataFrame(frame, crs=..., geometry=[...])\<close>: the list becomes the column
  \<^verbatim>\<open>geometry\<close>, one point per row.
\<close>

definition GeoDataFrame ::
  "('f, 't) frame \<Rightarrow> string \<Rightarrow> 'f point list \<Rightarrow> error + ('f, 't) geoframe" where
  "GeoDataFrame df c geometry =
     (if length geometry = nrows df
      then Inr \<lparr>table = set_column df ''geometry'' (GeomCol geometry), crs = c\<rparr>
      else Inl (ValueError UnequalLengths))"

text \<open>Lines 83 to 86. The arguments are evaluated from left to right.\<close>

definition attach_geometry :: "('f, 't) frame \<Rightarrow> error + ('f, 't) geoframe" where
  "attach_geometry df =
     and_then (drop_columns [''longitude'', ''latitude''] df) (\<lambda>kept.
     and_then (float_column df ''longitude'') (\<lambda>lons.
     and_then (float_column df ''latitude'') (\<lambda>lats.
     GeoDataFrame kept ''+proj=longlat +datum=WGS84 +no_defs''
       (map Point (zip lons lats)))))"

subsection \<open>Lines 90 to 98: the report\<close>

text \<open>
  \<^verbatim>\<open>groupby\<close> puts the groups in ascending order of their key. \<^verbatim>\<open>min\<close>, \<^verbatim>\<open>max\<close> and
  \<^verbatim>\<open>count\<close> leave null dates out; \<^verbatim>\<open>first\<close> is the first value of the group.
\<close>

definition group_keys :: "string list \<Rightarrow> string list" where
  "group_keys uids = sort (remdups uids)"

definition group_of :: "string \<Rightarrow> string list \<Rightarrow> 'a list \<Rightarrow> 'a list" where
  "group_of k uids vals = map snd (filter (\<lambda>(u, v). u = k) (zip uids vals))"

fun non_null :: "'a option list \<Rightarrow> 'a list" where
  "non_null [] = []"
| "non_null (None # xs) = non_null xs"
| "non_null (Some x # xs) = x # non_null xs"

fun minimum :: "('a::linorder) list \<Rightarrow> 'a option" where
  "minimum [] = None"
| "minimum (x # xs) = (case minimum xs of None \<Rightarrow> Some x | Some m \<Rightarrow> Some (min x m))"

fun maximum :: "('a::linorder) list \<Rightarrow> 'a option" where
  "maximum [] = None"
| "maximum (x # xs) = (case maximum xs of None \<Rightarrow> Some x | Some m \<Rightarrow> Some (max x m))"

definition user_stats_of ::
  "string list \<Rightarrow> ('t::linorder) option list \<Rightarrow> 't user_stats list" where
  "user_stats_of uids ts =
     map (\<lambda>k. \<lparr>user = k,
                First_Log = minimum (non_null (group_of k uids ts)),
                Last_Log = maximum (non_null (group_of k uids ts)),
                N_Logs = length (non_null (group_of k uids ts))\<rparr>)
         (group_keys uids)"

definition first_devices :: "string list \<Rightarrow> string list \<Rightarrow> (string \<times> string option) list" where
  "first_devices uids devs =
     map (\<lambda>k. (k, case group_of k uids devs of [] \<Rightarrow> None | d # ds \<Rightarrow> Some d))
         (group_keys uids)"

text \<open>
  \<^verbatim>\<open>sort_values(['N_Logs'], ascending=False)\<close>: the rows are taken in the order the
  library's sort gives for the key column.
\<close>

definition sort_values ::
  "('f, 't) library \<Rightarrow> 't user_stats list \<Rightarrow> error + 't user_stats list" where
  "sort_values L tbl =
     (let ix = sort_indexer L (map N_Logs tbl)
      in if list_all (\<lambda>i. i < length tbl) ix then Inr (map (\<lambda>i. tbl ! i) ix)
         else Inl (OtherError ''indexer out of bounds''))"

text \<open>
  \<^verbatim>\<open>merge(left, right, how="inner", on='user_id')\<close>: every pair of a left and a right
  row with the same \<^verbatim>\<open>user_id\<close>, in the order of the left rows.
\<close>

definition merge_inner ::
  "'t user_stats list \<Rightarrow> (string \<times> string option) list \<Rightarrow> 't user_line list" where
  "merge_inner left right =
     concat (map (\<lambda>l. map (\<lambda>(k, d). \<lparr>user_id' = user l, First_Log' = First_Log l,
                                       Last_Log' = Last_Log l, N_Logs' = N_Logs l,
                                       device_details' = d\<rparr>)
                           (filter (\<lambda>(k, d). k = user l) right))
                 left)"

definition summarize ::
  "('f, 't::linorder) library \<Rightarrow> ('f, 't) geoframe \<Rightarrow> error + 't user_line list" where
  "summarize L gdf =
     and_then (time_column (table gdf) ''timestamp'') (\<lambda>ts.
     and_then (str_column (table gdf) ''user_id'') (\<lambda>uids.
     and_then (sort_values L (user_stats_of uids ts)) (\<lambda>left.
     and_then (str_column (table gdf) ''device_details'') (\<lambda>devs.
     and_then (str_column (table gdf) ''user_id'') (\<lambda>uids'.
     Inr (merge_inner left (first_devices uids' devs)))))))"

subsection \<open>The whole function\<close>

text \<open>
  How a run ends: \<^verbatim>\<open>exit(n)\<close>, the end of the function, or an exception that nothing
  catches. The interpreter turns the last into a traceback and the exit status 1.
\<close>

datatype status = Exit nat | Finished | Uncaught error

fun exit_code :: "status \<Rightarrow> nat" where
  "exit_code (Exit n) = n"
| "exit_code Finished = 0"
| "exit_code (Uncaught e) = 1"

record ('f, 't) outcome =
  printed :: "'t event list"
  status :: status
  written :: "(string \<times> ('f, 't) geoframe) option"

definition fail :: "'t event list \<Rightarrow> error \<Rightarrow> ('f, 't) outcome" where
  "fail out e = \<lparr>printed = out, status = Uncaught e, written = None\<rparr>"

text \<open>Lines 90 to 98: the first empty line is printed before the table is computed.\<close>

definition report_stage ::
  "('f, 't::linorder) library \<Rightarrow> ('f, 't) geoframe \<Rightarrow> 't event list \<times> error option" where
  "report_stage L gdf =
     (case summarize L gdf of
        Inl e \<Rightarrow> ([PrintBlank], Some e)
      | Inr tbl \<Rightarrow> ([PrintBlank, PrintReport tbl, PrintBlank], None))"

text \<open>Lines 101 to 115: only \<^verbatim>\<open>DriverIOError\<close> is caught, and the run goes on.\<close>

definition export_stage ::
  "('f, 't) library \<Rightarrow> string \<Rightarrow> ('f, 't) geoframe \<Rightarrow> 't event list \<Rightarrow> ('f, 't) outcome" where
  "export_stage L out_path gdf out =
     (case to_file L out_path gdf of
        None \<Rightarrow> \<lparr>printed = out, status = Finished, written = Some (out_path, gdf)\<rparr>
      | Some e \<Rightarrow>
          (case e of
             DriverIOError m \<Rightarrow>
               \<lparr>printed = out @ [PrintError e, Print ''ERROR: Output file path invalid''],
                status = Finished, written = None\<rparr>
           | _ \<Rightarrow> fail out e))"

text \<open>Lines 75 to 116, from the list \<^verbatim>\<open>dfs\<close> on.\<close>

definition build_dataset ::
  "('f, 't::linorder) library \<Rightarrow> string \<Rightarrow> bool \<Rightarrow> bool \<Rightarrow> ('f, 't) frame list
     \<Rightarrow> 't event list \<Rightarrow> ('f, 't) outcome" where
  "build_dataset L out_path export report dfs out =
     (case concat_frames dfs of
        Inl e \<Rightarrow> fail out e
      | Inr df \<Rightarrow>
          (case and_then (parse_timestamps L df) attach_geometry of
             Inl e \<Rightarrow> fail (out @ [PrintRecords (nrows df)]) e
           | Inr gdf \<Rightarrow>
               (case (if report then report_stage L gdf else ([], None)) of
                  (evs, Some e) \<Rightarrow> fail (out @ [PrintRecords (nrows df)] @ evs) e
                | (evs, None) \<Rightarrow>
                    if export
                    then export_stage L out_path gdf (out @ [PrintRecords (nrows df)] @ evs)
                    else \<lparr>printed = out @ [PrintRecords (nrows df)] @ evs,
                          status = Finished, written = None\<rparr>)))"

definition parse_data ::
  "('f, 't::linorder) library \<Rightarrow> string \<Rightarrow> string \<Rightarrow> bool \<Rightarrow> bool \<Rightarrow> bool
     \<Rightarrow> ('f, 't) outcome" where
  "parse_data L in_path out_path export report debug =
     (if last5 in_path \<noteq> ''.json''
      then \<lparr>printed = [Print ''ERROR: Input file must be *.json file''],
            status = Exit 1, written = None\<rparr>
      else if export \<and> last5 out_path \<noteq> ''.gpkg''
      then \<lparr>printed = [Print ''ERROR: Output file path must be *.gpkg if --export=True''],
            status = Exit 1, written = None\<rparr>
      else (case load_json L in_path of
              NotFound \<Rightarrow>
                \<lparr>printed = [Print ''Input file not found''], status = Exit 1, written = None\<rparr>
            | LoadFailed e \<Rightarrow> fail [] e
            | Loaded packets \<Rightarrow>
                (case expand_all L debug packets [] of
                   (dfs, evs, Some e) \<Rightarrow> fail (PrintRetrieved (length packets) # evs) e
                 | (dfs, evs, None) \<Rightarrow>
                     build_dataset L out_path export report dfs
                       (PrintRetrieved (length packets) # evs))))"

subsection \<open>Notions used in the statements\<close>

text \<open>
  The schema of a frame is its list of column names with the kind of each column; a
  frame has height \<open>k\<close> when every column has \<open>k\<close> values.
\<close>

fun empty_like :: "('f, 't) column \<Rightarrow> ('f, 't) column" where
  "empty_like (StrCol xs) = StrCol []"
| "empty_like (FloatCol xs) = FloatCol []"
| "empty_like (IntCol xs) = IntCol []"
| "empty_like (TimeCol xs) = TimeCol []"
| "empty_like (GeomCol xs) = GeomCol []"

definition schema :: "('f, 't) frame \<Rightarrow> ('f, 't) frame" where
  "schema df = map (\<lambda>(n, c). (n, empty_like c)) df"

definition height :: "nat \<Rightarrow> ('f, 't) frame \<Rightarrow> bool" where
  "height k df = list_all (\<lambda>(n, c). col_len c = k) df"

definition packet_schema :: "('f, 't) frame" where
  "packet_schema =
     [(''user_id'', StrCol []), (''longitude'', FloatCol []), (''latitude'', FloatCol []),
      (''timestamp'', StrCol []), (''accuracy'', IntCol []), (''device_details'', StrCol [])]"

text \<open>The frames of the accepted packets, in the order of the packets.\<close>

definition accepted_frames ::
  "('f, 't) library \<Rightarrow> bool \<Rightarrow> packet list \<Rightarrow> ('f, 't) frame list" where
  "accepted_frames L debug ds =
     concat (map (\<lambda>d. case expand_packet L debug d of Accepted df \<Rightarrow> [df] | _ \<Rightarrow> []) ds)"

text \<open>
  A packet is rejected when the \<^verbatim>\<open>try\<close> raised and the handler reached \<^verbatim>\<open>continue\<close>;
  \<open>debug_output\<close> is what the handlers of the rejected packets print.
\<close>

definition rejected :: "('f, 't) library \<Rightarrow> bool \<Rightarrow> packet \<Rightarrow> bool" where
  "rejected L debug d = (case expand_packet L debug d of Rejected evs \<Rightarrow> True | _ \<Rightarrow> False)"

definition debug_output :: "('f, 't) library \<Rightarrow> bool \<Rightarrow> packet list \<Rightarrow> 't event list" where
  "debug_output L debug ds =
     concat (map (\<lambda>d. case expand_packet L debug d of Rejected evs \<Rightarrow> evs | _ \<Rightarrow> []) ds)"

text \<open>
  What the library promises of a descending sort: the indexer is a permutation of the
  positions, and the keys read in its order do not increase.
\<close>

definition descending_indexer :: "nat list \<Rightarrow> nat list \<Rightarrow> bool" where
  "descending_indexer ks ix =
     (sort ix = [0..<length ks] \<and> sorted_wrt (\<lambda>a b. b \<le> a) (map (\<lambda>i. ks ! i) ix))"

subsection \<open>Sample data\<close>

text \<open>
  A small library and a few packets, for the worked examples. Floats are read as exact
  rationals and dates as seconds; the sample builtins know only the strings listed.
  \<open>sample_library\<close> sorts stably; \<open>reversing_library\<close> sorts ascending and reverses
  the result, which is a descending sort too.
\<close>

definition sample_float :: "string \<Rightarrow> rat option" where
  "sample_float = map_of [(''-2.23'', - 223 / 100), (''-2.24'', - 224 / 100),
                          (''53.47'', 5347 / 100), (''53.48'', 5348 / 100)]"

definition sample_int :: "string \<Rightarrow> int option" where
  "sample_int = map_of [(''5'', 5), (''10'', 10), (''12'', 12)]"

definition sample_datetime :: "string list \<Rightarrow> error + int option list" where
  "sample_datetime ts =
     (let known = map_of [(''2022-04-19 16:23:09'', 1650385389 :: int),
                          (''2022-04-19 16:24:09'', 1650385449),
                          (''2022-04-19 16:25:09'', 1650385509)]
      in if list_all (\<lambda>s. known s \<noteq> None) ts then Inr (map known ts)
         else Inl (ValueError (OtherCause ''Unknown datetime string format'')))"

definition stable_descending :: "nat list \<Rightarrow> nat list" where
  "stable_descending ks = sort_key (\<lambda>i. - int (ks ! i)) [0..<length ks]"

definition sample_library :: "packet list \<Rightarrow> (rat, int) library" where
  "sample_library packets =
     \<lparr>py_float = sample_float, py_int = sample_int,
      load_json = (\<lambda>path. if path = ''export.json'' then Loaded packets else NotFound),
      to_datetime = sample_datetime,
      sort_indexer = stable_descending,
      to_file = (\<lambda>path gdf. if path = ''/missing/traces.gpkg''
                              then Some (DriverIOError ''sqlite3_open failed'') else None)\<rparr>"

definition reversing_library :: "packet list \<Rightarrow> (rat, int) library" where
  "reversing_library packets =
     (sample_library packets)
       \<lparr>sort_indexer := (\<lambda>ks. rev (sort_key (\<lambda>i. ks ! i) [0..<length ks]))\<rparr>"

definition packet_A :: packet where
  "packet_A = \<lparr>user_id = Some ''A'', longitude = Some [''-2,23'', ''-2.24''],
                latitude = Some [''53.47'', ''53,48''],
                timestamp = Some [''2022-04-19 16:23:09'', ''2022-04-19 16:24:09''],
                accuracy = Some [''5'', ''10''], device_details = Some ''Pixel 4''\<rparr>"

definition packet_B :: packet where
  "packet_B = \<lparr>user_id = Some ''B'', longitude = Some [''-2.24''],
                latitude = Some [''53.48''],
                timestamp = Some [''2022-04-19 16:25:09''],
                accuracy = Some [''12''], device_details = Some ''iPhone 11''\<rparr>"

definition packet_D :: packet where
  "packet_D = \<lparr>user_id = Some ''D'', longitude = Some [''-2.23''],
                latitude = Some [''53.47''],
                timestamp = Some [''2022-04-19 16:23:09''],
                accuracy = Some [''5''], device_details = Some ''Pixel 4''\<rparr>"

definition packet_no_latitude :: packet where
  "packet_no_latitude = \<lparr>user_id = Some ''C'', longitude = Some [''-2.23''],
                latitude = None,
                timestamp = Some [''2022-04-19 16:23:09''],
                accuracy = Some [''5''], device_details = Some ''Pixel 4''\<rparr>"

definition packet_bad_accuracy :: packet where
  "packet_bad_accuracy = \<lparr>user_id = Some ''C'', longitude = Some [''-2.23''],
                latitude = Some [''53.47''],
                timestamp = Some [''2022-04-19 16:23:09''],
                accuracy = Some [''4.5''], device_details = Some ''Pixel 4''\<rparr>"

definition packet_odd_time :: packet where
  "packet_odd_time = \<lparr>user_id = Some ''D'', longitude = Some [''-2.23''],
                latitude = Some [''53.47''],
                timestamp = Some [''half past four''],
                accuracy = Some [''5''], device_details = Some ''Pixel 4''\<rparr>"

definition frame_A :: "(rat, int) frame" where
  "frame_A =
     [(''user_id'', StrCol [''A'', ''A'']),
      (''longitude'', FloatCol [- 223 / 100, - 224 / 100]),
      (''latitude'', FloatCol [5347 / 100, 5348 / 100]),
      (''timestamp'', StrCol [''2022-04-19 16:23:09'', ''2022-04-19 16:24:09'']),
      (''accuracy'', IntCol [5, 10]),
      (''device_details'', StrCol [''Pixel 4'', ''Pixel 4''])]"

definition frame_B :: "(rat, int) frame" where
  "frame_B =
     [(''user_id'', StrCol [''B'']), (''longitude'', FloatCol [- 224 / 100]),
      (''latitude'', FloatCol [5348 / 100]),
      (''timestamp'', StrCol [''2022-04-19 16:25:09'']),
      (''accuracy'', IntCol [12]),
      (''device_details'', StrCol [''iPhone 11''])]"

definition frame_odd_time :: "(rat, int) frame" where
  "frame_odd_time =
     [(''user_id'', StrCol [''D'']), (''longitude'', FloatCol [- 223 / 100]),
      (''latitude'', FloatCol [5347 / 100]), (''timestamp'', StrCol [''half past four'']),
      (''accuracy'', IntCol [5]), (''device_details'', StrCol [''Pixel 4''])]"

text \<open>The dataset of the packets A and B after line 80.\<close>

definition dataset_AB :: "(rat, int) frame" where
  "dataset_AB =
     [(''user_id'', StrCol [''A'', ''A'', ''B'']),
      (''longitude'', FloatCol [- 223 / 100, - 224 / 100, - 224 / 100]),
      (''latitude'', FloatCol [5347 / 100, 5348 / 100, 5348 / 100]),
      (''timestamp'', TimeCol [Some 1650385389, Some 1650385449, Some 1650385509]),
      (''accuracy'', IntCol [5, 10, 12]),
      (''device_details'', StrCol [''Pixel 4'', ''Pixel 4'', ''iPhone 11''])]"

text \<open>A spatial dataset with 5 rows of user A, 12 of user B and 1 of user C.\<close>

definition report_ABC :: "(rat, int) geoframe" where
  "report_ABC =
     \<lparr>table =
        [(''user_id'', StrCol (replicate 5 ''A'' @ replicate 12 ''B'' @ [''C''])),
         (''timestamp'', TimeCol (map (\<lambda>n. Some (1650385389 + int n)) [0..<18])),
         (''accuracy'', IntCol (replicate 18 5)),
         (''device_details'',
            StrCol (replicate 5 ''Pixel 4'' @ replicate 12 ''iPhone 11'' @ [''Pixel 4''])),
         (''geometry'', GeomCol (replicate 18 (Point (- 223 / 100, 5347 / 100))))],
      crs = ''+proj=longlat +datum=WGS84 +no_defs''\<rparr>"

section \<open>Properties\<close>

subsection \<open>Coercion of coordinates\<close>

lemma and_then_simps [simp]: "and_then (Inl e) f = Inl e" "and_then (Inr x) f = f x"
  by (simp_all add: and_then_def)

lemma getitem_simps [simp]: "getitem k None = Inl (KeyError k)" "getitem k (Some x) = Inr x"
  by (simp_all add: getitem_def)

lemma replace_comma:
  "replace '','' ''.'' n = map (\<lambda>c. if c = CHR '','' then CHR ''.'' else c) n"
  by (induction n) simp_all

text \<open>
  C5. The coercion of line 57 and 58 replaces every comma of the string by a dot, changes
  no other character, and hands the result to \<^verbatim>\<open>float\<close>: for every string \<open>n\<close> the
  coercion gives what \<^verbatim>\<open>float\<close> gives on \<open>n\<close> with its commas turned into dots, and raises
  \<^verbatim>\<open>ValueError\<close> when \<^verbatim>\<open>float\<close> does; a string without a comma reaches \<^verbatim>\<open>float\<close> unchanged.
  So \<^verbatim>\<open>"53,47"\<close> and \<^verbatim>\<open>"53.47"\<close> are both coerced to \<open>v\<close>, the float that \<^verbatim>\<open>float("53.47")\<close>
  is, which is written 53.47.
\<close>

theorem coordinate_coercion:
  "to_float L n =
     (case py_float L (map (\<lambda>c. if c = CHR '','' then CHR ''.'' else c) n) of
        None \<Rightarrow>
          Inl (ValueError (NotAFloat (map (\<lambda>c. if c = CHR '','' then CHR ''.'' else c) n)))
      | Some x \<Rightarrow> Inr x) \<and>
   (CHR '','' \<notin> set n \<longrightarrow>
      to_float L n =
        (case py_float L n of None \<Rightarrow> Inl (ValueError (NotAFloat n)) | Some x \<Rightarrow> Inr x)) \<and>
   (py_float L ''53.47'' = Some v \<longrightarrow>
      to_float L ''53,47'' = Inr v \<and> to_float L ''53.47'' = Inr v) \<and>
   replace '','' ''.'' n = map (\<lambda>c. if c = CHR '','' then CHR ''.'' else c) n \<and>
   to_float L ''53,47'' = to_float L ''53.47'' \<and>
   to_float L ''53.47'' =
     (case py_float L ''53.47'' of
        None \<Rightarrow> Inl (ValueError (NotAFloat ''53.47''))
      | Some x \<Rightarrow> Inr x)"
proof -
  have m: "CHR '','' \<notin> set n \<Longrightarrow> map (\<lambda>c. if c = CHR '','' then CHR ''.'' else c) n = n"
    by (induction n) auto
  show ?thesis by (auto simp add: replace_comma to_float_def Let_def m)
qed

theorem coordinate_coercion_witness:
  "to_float (sample_library []) ''53,47'' = Inr (5347 / 100) \<and>
   to_float (sample_library []) ''53.47'' = Inr (5347 / 100) \<and>
   to_float (sample_library []) ''-2,24'' = Inr (- 224 / 100) \<and>
   to_float (sample_library []) ''5,3,47'' = Inl (ValueError (NotAFloat ''5.3.47''))"
  using coordinate_coercion [of "sample_library []" "''53.47''" "5347 / 100"]
    coordinate_coercion [of "sample_library []" "''-2,24''"]
    coordinate_coercion [of "sample_library []" "''5,3,47''"]
  by (simp add: sample_library_def sample_float_def)

subsection \<open>One packet\<close>

lemma convert_all_ok: "map f ns = map Inr vs \<Longrightarrow> convert_all f ns = Inr vs"
  by (induction ns arbitrary: vs) auto

lemma convert_all_caught:
  "(\<And>n e. f n = Inl e \<Longrightarrow> caught e) \<Longrightarrow> convert_all f ns = Inl e \<Longrightarrow> caught e"
  by (induction ns arbitrary: e) (auto split: sum.splits)

lemma to_float_caught: "to_float L n = Inl e \<Longrightarrow> caught e"
  by (auto simp: to_float_def Let_def split: option.splits)

lemma to_int_caught: "to_int L n = Inl e \<Longrightarrow> caught e"
  by (auto simp: to_int_def split: option.splits)

lemma floats_caught: "convert_all (to_float L) ns = Inl e \<Longrightarrow> caught e"
  using convert_all_caught [of "to_float L"] to_float_caught by blast

lemma ints_caught: "convert_all (to_int L) ns = Inl e \<Longrightarrow> caught e"
  using convert_all_caught [of "to_int L"] to_int_caught by blast

lemma DataFrame_caught: "DataFrame cols = Inl e \<Longrightarrow> caught e"
  by (auto simp: DataFrame_def split: if_splits)

text \<open>Whatever the \<^verbatim>\<open>try\<close> of lines 55 to 62 raises, the clause of line 63 catches.\<close>

lemma build_frame_caught: "build_frame L d = Inl e \<Longrightarrow> caught e"
  unfolding build_frame_def and_then_def getitem_def
  by (auto split: sum.splits option.splits dest: DataFrame_caught floats_caught ints_caught)

lemma build_frame_well_formed:
  assumes "user_id d = Some uid" "longitude d = Some lon" "latitude d = Some lat"
      "timestamp d = Some ts" "accuracy d = Some acc" "device_details d = Some dev"
    and "length lon = N" "length lat = N" "length ts = N" "length acc = N"
    and "map (to_float L) lon = map Inr lons" "map (to_float L) lat = map Inr lats"
      "map (to_int L) acc = map Inr accs"
  shows "build_frame L d =
     Inr [(''user_id'', StrCol (replicate N uid)), (''longitude'', FloatCol lons),
          (''latitude'', FloatCol lats), (''timestamp'', StrCol ts),
          (''accuracy'', IntCol accs), (''device_details'', StrCol (replicate N dev))]"
proof -
  have l1: "length lons = N" using assms(7,11) by (metis length_map)
  have l2: "length lats = N" using assms(8,12) by (metis length_map)
  have l3: "length accs = N" using assms(10,13) by (metis length_map)
  show ?thesis
    using assms l1 l2 l3
    by (simp add: build_frame_def convert_all_ok DataFrame_def nrows_def)
qed

text \<open>
  C2. A packet that has the six fields, whose four sequences have the same length \<open>N\<close>
  and whose longitude, latitude and accuracy entries all convert (to \<open>lons\<close>, \<open>lats\<close>
  and \<open>accs\<close>), is accepted with a frame of exactly \<open>N\<close> rows; row \<open>i\<close> holds the
  packet's \<^verbatim>\<open>user_id\<close> and \<^verbatim>\<open>device_details\<close> and the values at position \<open>i\<close> of the
  converted longitudes, the converted latitudes, the timestamps and the converted
  accuracies.
\<close>

theorem expand_packet_well_formed:
  assumes "user_id d = Some uid" "longitude d = Some lon" "latitude d = Some lat"
      "timestamp d = Some ts" "accuracy d = Some acc" "device_details d = Some dev"
    and "length lon = N" "length lat = N" "length ts = N" "length acc = N"
    and "map (to_float L) lon = map Inr lons" "map (to_float L) lat = map Inr lats"
      "map (to_int L) acc = map Inr accs"
  shows "\<exists>df. expand_packet L debug d = Accepted df \<and> length (rows df) = N \<and>
     (\<forall>i<N. rows df ! i =
        [(''user_id'', StrCell uid), (''longitude'', FloatCell (lons ! i)),
         (''latitude'', FloatCell (lats ! i)), (''timestamp'', StrCell (ts ! i)),
         (''accuracy'', IntCell (accs ! i)), (''device_details'', StrCell dev)])"
proof -
  have l1: "length lons = N" using assms(7,11) by (metis length_map)
  have l2: "length lats = N" using assms(8,12) by (metis length_map)
  have l3: "length accs = N" using assms(10,13) by (metis length_map)
  have "expand_packet L debug d =
      Accepted [(''user_id'', StrCol (replicate N uid)), (''longitude'', FloatCol lons),
          (''latitude'', FloatCol lats), (''timestamp'', StrCol ts),
          (''accuracy'', IntCol accs), (''device_details'', StrCol (replicate N dev))]"
    using build_frame_well_formed [OF assms] by (simp add: expand_packet_def)
  then show ?thesis
    using l1 l2 l3 assms(9) by (simp add: rows_def row_def nrows_def)
qed

theorem expand_packet_well_formed_witness:
  "\<exists>df. expand_packet (sample_library []) True packet_A = Accepted df \<and>
     length (rows df) = 2 \<and>
     (\<forall>i<2. rows df ! i =
        [(''user_id'', StrCell ''A''),
         (''longitude'', FloatCell ([- 223 / 100, - 224 / 100] ! i)),
         (''latitude'', FloatCell ([5347 / 100, 5348 / 100] ! i)),
         (''timestamp'', StrCell ([''2022-04-19 16:23:09'', ''2022-04-19 16:24:09''] ! i)),
         (''accuracy'', IntCell ([5, 10] ! i)), (''device_details'', StrCell ''Pixel 4'')])"
  by (rule expand_packet_well_formed [where lon = "[''-2,23'', ''-2.24'']"
        and lat = "[''53.47'', ''53,48'']" and acc = "[''5'', ''10'']"])
     (simp_all add: packet_A_def sample_library_def to_float_def to_int_def replace_comma
        sample_float_def sample_int_def)

subsection \<open>Concatenation\<close>

lemma col_append_like:
  "empty_like c = empty_like c' \<Longrightarrow>
     \<exists>cc. col_append c c' = Some cc \<and> empty_like cc = empty_like c \<and>
          col_len cc = col_len c + col_len c' \<and> cells cc = cells c @ cells c'"
  by (cases c; cases c') simp_all

lemma length_cells [simp]: "length (cells c) = col_len c"
  by (cases c) simp_all

text \<open>
  Two frames of one schema stack, and a row of the result is a row of the first frame
  or, past its height, a row of the second.
\<close>

lemma stack_schema:
  "schema a = schema b \<Longrightarrow> height k a \<Longrightarrow> height m b \<Longrightarrow>
     \<exists>r. stack a b = Some r \<and> schema r = schema a \<and> height (k + m) r \<and>
         (\<forall>i. row r i = (if i < k then row a i else row b (i - k)))"
proof (induction a b rule: stack.induct)
  case 1
  then show ?case by (simp add: schema_def height_def row_def)
next
  case (2 n c a m' c' b)
  from "2.prems" have nm: "n = m'" and like: "empty_like c = empty_like c'"
    and rest: "schema a = schema b" and ha: "height k a" and hb: "height m b"
    and lc: "col_len c = k" and lc': "col_len c' = m"
    by (simp_all add: schema_def height_def)
  from col_append_like [OF like] obtain cc where cc: "col_append c c' = Some cc"
    "empty_like cc = empty_like c" "col_len cc = col_len c + col_len c'"
    "cells cc = cells c @ cells c'" by blast
  from "2.IH" [OF nm cc(1) rest ha hb] obtain r where r: "stack a b = Some r"
    "schema r = schema a" "height (k + m) r"
    "\<forall>i. row r i = (if i < k then row a i else row b (i - k))" by blast
  have "stack ((n, c) # a) ((m', c') # b) = Some ((n, cc) # r)"
    using nm cc(1) r(1) by simp
  moreover have "schema ((n, cc) # r) = schema ((n, c) # a)"
    using cc(2) r(2) by (simp add: schema_def)
  moreover have "height (k + m) ((n, cc) # r)"
    using cc(3) lc lc' r(3) by (simp add: height_def)
  moreover have "\<forall>i. row ((n, cc) # r) i =
      (if i < k then row ((n, c) # a) i else row ((m', c') # b) (i - k))"
    using r(4) cc(4) lc nm by (simp add: row_def nth_append)
  ultimately show ?case by blast
qed (simp_all add: schema_def)

lemma nrows_height: "height k df \<Longrightarrow> df \<noteq> [] \<Longrightarrow> nrows df = k"
  by (cases df) (auto simp: nrows_def height_def)

lemma rows_height: "height k df \<Longrightarrow> df \<noteq> [] \<Longrightarrow> rows df = map (row df) [0..<k]"
  using nrows_height [of k df] by (simp add: rows_def)

lemma rows_stack:
  assumes "schema a = schema b" "height k a" "height m b" "a \<noteq> []"
  shows "\<exists>r. stack a b = Some r \<and> schema r = schema a \<and> height (k + m) r \<and>
         rows r = rows a @ rows b"
proof -
  from stack_schema [OF assms(1-3)] obtain r where r: "stack a b = Some r"
    "schema r = schema a" "height (k + m) r"
    "\<forall>i. row r i = (if i < k then row a i else row b (i - k))" by blast
  have ne: "r \<noteq> []" "b \<noteq> []" using r(2) assms(1,4) by (auto simp: schema_def)
  have "[0..<k + m] = [0..<k] @ [k..<k + m]"
    by (rule upt_add_eq_append) simp
  moreover have "map (\<lambda>i. i + k) [0..<m] = [k..<k + m]"
    by (simp only: map_add_upt add.commute [of k m])
  ultimately have split: "[0..<k + m] = [0..<k] @ map (\<lambda>i. i + k) [0..<m]"
    by simp
  have "map (row r) [0..<k] = map (row a) [0..<k]"
    using r(4) by simp
  moreover have "map (row r) (map (\<lambda>i. i + k) [0..<m]) = map (row b) [0..<m]"
    using r(4) by (simp add: comp_def)
  ultimately have "map (row r) [0..<k + m] = map (row a) [0..<k] @ map (row b) [0..<m]"
    by (simp only: split map_append)
  then show ?thesis
    using r(1-3) rows_height [OF r(3) ne(1)] rows_height [OF assms(2,4)]
      rows_height [OF assms(3) ne(2)] by simp
qed

lemma DataFrame_height: "DataFrame cols = Inr df \<Longrightarrow> df = cols \<and> height (nrows df) df"
  by (auto simp: DataFrame_def height_def split: if_splits)

lemma build_frame_shape:
  assumes "build_frame L d = Inr df"
  shows "schema df = packet_schema \<and> height (nrows df) df"
proof -
  from assms obtain cols where c: "DataFrame cols = Inr df" "schema cols = packet_schema"
    unfolding build_frame_def and_then_def
    by (auto split: sum.splits simp: schema_def packet_schema_def)
  from DataFrame_height [OF c(1)] have "df = cols" "height (nrows df) df" by blast+
  with c(2) show ?thesis by simp
qed

lemma expand_packet_shape:
  "expand_packet L debug d = Accepted df \<Longrightarrow>
     schema df = packet_schema \<and> height (nrows df) df"
  using build_frame_shape [of L d df]
  by (auto simp: expand_packet_def split: sum.splits if_splits prod.splits option.splits)

lemma concat_frames_rows:
  assumes "dfs \<noteq> []" "\<forall>df\<in>set dfs. schema df = S \<and> height (nrows df) df" "S \<noteq> []"
  shows "\<exists>df. concat_frames dfs = Inr df \<and> schema df = S \<and> height (nrows df) df \<and>
            rows df = concat (map rows dfs)"
  using assms
proof (induction dfs rule: concat_frames.induct)
  case 1
  then show ?case by simp
next
  case (2 df)
  then show ?case by simp
next
  case (3 df v va)
  then obtain rest where rest: "concat_frames (v # va) = Inr rest" "schema rest = S"
      "height (nrows rest) rest" "rows rest = concat (map rows (v # va))"
    by auto
  from "3.prems" have df: "schema df = S" "height (nrows df) df" "df \<noteq> []"
    by (auto simp: schema_def)
  from rows_stack [of df rest "nrows df" "nrows rest"] df rest
  obtain r where r: "stack df rest = Some r" "schema r = schema df"
      "height (nrows df + nrows rest) r" "rows r = rows df @ rows rest"
    by auto
  have "r \<noteq> []" using r(2) df by (auto simp: schema_def)
  then have "nrows r = nrows df + nrows rest" using nrows_height [OF r(3)] by simp
  then show ?case using r rest df by simp
qed

lemma expand_all_frames:
  "expand_all L debug ds dfs = (fs, out, None) \<Longrightarrow> fs = dfs @ accepted_frames L debug ds"
proof (induction ds arbitrary: dfs out)
  case Nil
  then show ?case by (simp add: accepted_frames_def)
next
  case (Cons d ds)
  show ?case
  proof (cases "expand_packet L debug d")
    case (Accepted df)
    with Cons.prems have "expand_all L debug ds (dfs @ [df]) = (fs, out, None)" by simp
    from Cons.IH [OF this] show ?thesis using Accepted by (simp add: accepted_frames_def)
  next
    case (Rejected evs)
    with Cons.prems obtain out' where "expand_all L debug ds dfs = (fs, out', None)"
      by (auto split: prod.splits)
    from Cons.IH [OF this] show ?thesis using Rejected by (simp add: accepted_frames_def)
  next
    case (Raised evs e)
    with Cons.prems show ?thesis by simp
  qed
qed

lemma accepted_frames_shape:
  "df \<in> set (accepted_frames L debug ds) \<Longrightarrow>
     schema df = packet_schema \<and> height (nrows df) df"
proof -
  assume "df \<in> set (accepted_frames L debug ds)"
  then obtain d where
    "df \<in> set (case expand_packet L debug d of Accepted df \<Rightarrow> [df] | _ \<Rightarrow> [])"
    by (auto simp: accepted_frames_def)
  then have "expand_packet L debug d = Accepted df"
    by (cases "expand_packet L debug d") auto
  then show ?thesis by (rule expand_packet_shape)
qed

text \<open>
  C4. When the loop over the packets ends with the list \<open>dfs\<close> (not empty), \<open>dfs\<close>
  holds the frames of the accepted packets in the order of the packets, the
  concatenation succeeds, and the rows of the dataset are the rows of the first frame
  in their order, then the rows of the second in their order, and so on for any number
  of frames.
\<close>

theorem concatenation_preserves_order:
  assumes "expand_all L debug packets [] = (dfs, evs, None)" and "dfs \<noteq> []"
  shows "dfs = accepted_frames L debug packets \<and>
         (\<exists>df. concat_frames dfs = Inr df \<and> rows df = concat (map rows dfs))"
proof -
  have eq: "dfs = accepted_frames L debug packets"
    using expand_all_frames [OF assms(1)] by simp
  have "\<forall>df\<in>set dfs. schema df = (packet_schema :: ('a, 'b) frame) \<and> height (nrows df) df"
    using accepted_frames_shape eq by blast
  moreover have "(packet_schema :: ('a, 'b) frame) \<noteq> []" by (simp add: packet_schema_def)
  ultimately show ?thesis
    using concat_frames_rows [OF assms(2)] eq by blast
qed

lemma sample_expansion:
  "expand_all (sample_library []) False [packet_A, packet_bad_accuracy, packet_B] [] =
     ([frame_A, frame_B], [], None)"
  by (simp add: expand_packet_def build_frame_def packet_A_def packet_B_def
        packet_bad_accuracy_def sample_library_def to_float_def to_int_def replace_comma
        sample_float_def sample_int_def DataFrame_def nrows_def frame_A_def frame_B_def)

theorem concatenation_preserves_order_witness:
  "[frame_A, frame_B] =
     accepted_frames (sample_library []) False [packet_A, packet_bad_accuracy, packet_B] \<and>
   (\<exists>df. concat_frames [frame_A, frame_B] = Inr df \<and>
         rows df = concat (map rows [frame_A, frame_B]))"
  by (rule concatenation_preserves_order [OF sample_expansion]) simp

subsection \<open>Rejected packets\<close>

text \<open>
  With \<^verbatim>\<open>debug\<close> off a packet whose \<^verbatim>\<open>try\<close> raises is dropped without a trace: the loop
  gives the same frames and the same output as it gives without that packet.
\<close>

lemma rejected_when_debug_off:
  "build_frame L d = Inl e \<Longrightarrow> expand_packet L False d = Rejected []"
  by (simp add: expand_packet_def build_frame_caught)

lemma rejected_packet_isolated:
  "build_frame L d = Inl e \<Longrightarrow>
     expand_all L False (ds @ d # ds') dfs = expand_all L False (ds @ ds') dfs"
  by (induction ds arbitrary: dfs)
     (simp_all add: rejected_when_debug_off split: expansion.splits prod.splits)

text \<open>
  With \<^verbatim>\<open>debug\<close> on and the six fields present, the handler prints the exception, the
  six fields and an empty line, and the loop goes on.
\<close>

lemma debug_prints_six_fields:
  assumes "build_frame L d = Inl e"
    and "user_id d = Some uid" "longitude d = Some lon" "latitude d = Some lat"
      "timestamp d = Some ts" "accuracy d = Some acc" "device_details d = Some dev"
  shows "expand_packet L True d =
           Rejected [PrintError e, PrintValue uid, PrintSeq lon, PrintSeq lat, PrintSeq ts,
                     PrintSeq acc, PrintValue dev, PrintBlank]"
  using assms build_frame_caught [OF assms(1)]
  by (simp add: expand_packet_def debug_print_def)

text \<open>
  C1. The claim holds with \<^verbatim>\<open>debug\<close> off (\<open>rejected_packet_isolated\<close>). It fails with
  \<^verbatim>\<open>debug\<close> on for a packet that lacks a field: in the run below the first packet has
  no \<^verbatim>\<open>latitude\<close>, the handler of lines 65 to 72 prints the exception, \<^verbatim>\<open>user_id\<close> and
  \<^verbatim>\<open>longitude\<close> and then raises \<^verbatim>\<open>KeyError\<close> at line 68, and the run ends without the
  record of packet B, which the same run without the first packet produces.
\<close>

theorem missing_field_with_debug_ends_run:
  "status (parse_data (sample_library [packet_no_latitude, packet_B])
             ''export.json'' [] False False True) = Uncaught (KeyError ''latitude'') \<and>
   printed (parse_data (sample_library [packet_no_latitude, packet_B])
             ''export.json'' [] False False True) =
     [PrintRetrieved 2, PrintError (KeyError ''latitude''), PrintValue ''C'',
      PrintSeq [''-2.23'']] \<and>
   printed (parse_data (sample_library [packet_B]) ''export.json'' [] False False True) =
     [PrintRetrieved 1, PrintRecords 1]"
  by code_simp

lemma build_frame_no_latitude: "latitude d = None \<Longrightarrow> \<exists>e. build_frame L d = Inl e"
  by (auto simp: build_frame_def and_then_def getitem_def split: sum.splits option.splits)

text \<open>
  C3. The claim fails with \<^verbatim>\<open>debug\<close> on: for the packet without \<^verbatim>\<open>latitude\<close> and for
  every library, an exception leaves the loop body, raised by the handler itself when
  it reads \<^verbatim>\<open>d['latitude']\<close>, after it has printed less than the six fields.
\<close>

theorem debug_handler_raises:
  "\<exists>evs. expand_packet L True packet_no_latitude = Raised evs (KeyError ''latitude'') \<and>
         length evs = 3"
proof -
  obtain e where e: "build_frame L packet_no_latitude = Inl e"
    using build_frame_no_latitude [of packet_no_latitude L]
    by (auto simp: packet_no_latitude_def)
  have c: "caught e" using e by (rule build_frame_caught)
  have p: "debug_print packet_no_latitude e =
      ([PrintError e, PrintValue ''C'', PrintSeq [''-2.23'']], Some (KeyError ''latitude''))"
    by (simp add: debug_print_def packet_no_latitude_def)
  show ?thesis by (simp add: expand_packet_def e c p)
qed

subsection \<open>No packet accepted\<close>

lemma expand_all_rejected:
  "\<forall>d\<in>set ds. rejected L debug d \<Longrightarrow>
     expand_all L debug ds dfs = (dfs, debug_output L debug ds, None)"
  by (induction ds arbitrary: dfs)
     (auto simp: rejected_def debug_output_def split: expansion.splits)

text \<open>The handlers print neither a number of records nor a report.\<close>

lemma print_fields_events:
  "print_fields fs = (evs, r) \<Longrightarrow> ev \<in> set evs \<Longrightarrow>
     ev = PrintBlank \<or> (\<exists>k. (k, Some ev) \<in> set fs)"
proof (induction fs arbitrary: evs r rule: print_fields.induct)
  case 1
  then show ?case by auto
next
  case (2 k fs)
  then show ?case by simp
next
  case (3 k ev' fs)
  then show ?case by (fastforce split: prod.splits)
qed

lemma Some_map_option: "Some a = map_option f x \<longleftrightarrow> (\<exists>y. x = Some y \<and> a = f y)"
  by (cases x) auto

lemma debug_print_events:
  assumes "debug_print d e = (evs, r)"
  shows "PrintRecords n \<notin> set evs \<and> PrintReport t \<notin> set evs"
proof -
  from assms obtain evs' where p: "print_fields
             [(''user_id'', map_option PrintValue (user_id d)),
              (''longitude'', map_option PrintSeq (longitude d)),
              (''latitude'', map_option PrintSeq (latitude d)),
              (''timestamp'', map_option PrintSeq (timestamp d)),
              (''accuracy'', map_option PrintSeq (accuracy d)),
              (''device_details'', map_option PrintValue (device_details d))] = (evs', r)"
    and evs: "evs = PrintError e # evs'"
    by (auto simp: debug_print_def split: prod.splits)
  have "PrintRecords n \<notin> set evs'"
    using print_fields_events [OF p, of "PrintRecords n"]
    by (auto simp: Some_map_option)
  moreover have "PrintReport t \<notin> set evs'"
    using print_fields_events [OF p, of "PrintReport t"]
    by (auto simp: Some_map_option)
  ultimately show ?thesis using evs by simp
qed

lemma rejected_events:
  "expand_packet L debug d = Rejected evs \<Longrightarrow>
     PrintRecords n \<notin> set evs \<and> PrintReport t \<notin> set evs"
  using debug_print_events [of d _ evs None n t]
  by (auto simp: expand_packet_def split: sum.splits if_splits prod.splits option.splits)

lemma debug_output_events:
  "PrintRecords n \<notin> set (debug_output L debug ds) \<and>
   PrintReport t \<notin> set (debug_output L debug ds)"
proof -
  have "ev \<in> set (debug_output L debug ds) \<Longrightarrow>
      \<exists>d evs. expand_packet L debug d = Rejected evs \<and> ev \<in> set evs" for ev
    by (auto simp: debug_output_def split: expansion.splits) (metis)
  then show ?thesis using rejected_events by blast
qed

text \<open>
  C10. When the paths pass the checks, the document loads and every packet of it is
  rejected (in particular when it has no packet), \<^verbatim>\<open>concat\<close> raises \<^verbatim>\<open>ValueError\<close> and
  nothing catches it: the run prints the number of packets and what the handlers of the
  rejected packets print, no number of records and no report, and writes no file.
\<close>

theorem no_accepted_packet_fails:
  assumes "last5 in_path = ''.json''" and "\<not> export \<or> last5 out_path = ''.gpkg''"
    and "load_json L in_path = Loaded packets"
    and "\<forall>d\<in>set packets. rejected L debug d"
  shows "parse_data L in_path out_path export report debug =
           \<lparr>printed = PrintRetrieved (length packets) # debug_output L debug packets,
            status = Uncaught (ValueError NothingToConcatenate), written = None\<rparr> \<and>
         (\<forall>n. PrintRecords n \<notin> set (debug_output L debug packets)) \<and>
         (\<forall>t. PrintReport t \<notin> set (debug_output L debug packets))"
proof -
  have "parse_data L in_path out_path export report debug =
           \<lparr>printed = PrintRetrieved (length packets) # debug_output L debug packets,
            status = Uncaught (ValueError NothingToConcatenate), written = None\<rparr>"
    using assms expand_all_rejected [OF assms(4), of "[]"]
    by (auto simp: parse_data_def build_dataset_def fail_def)
  then show ?thesis using debug_output_events [of _ L debug packets] by blast
qed

theorem no_accepted_packet_fails_witness:
  "parse_data (sample_library [packet_bad_accuracy, packet_no_latitude]) ''export.json''
       ''traces.gpkg'' True True False =
     \<lparr>printed = [PrintRetrieved 2], status = Uncaught (ValueError NothingToConcatenate),
      written = None\<rparr>"
proof -
  have "\<forall>d\<in>set [packet_bad_accuracy, packet_no_latitude].
          rejected (sample_library [packet_bad_accuracy, packet_no_latitude]) False d"
    by (simp add: rejected_def expand_packet_def build_frame_def packet_no_latitude_def
        packet_bad_accuracy_def sample_library_def to_float_def to_int_def replace_comma
        sample_float_def sample_int_def)
  from no_accepted_packet_fails
         [OF _ _ _ this, of "''export.json''" True "''traces.gpkg''" True]
  show ?thesis
    by (simp add: last5_def sample_library_def debug_output_def expand_packet_def
        build_frame_def packet_no_latitude_def
        packet_bad_accuracy_def to_float_def to_int_def replace_comma
        sample_float_def sample_int_def)
qed

subsection \<open>Timestamps\<close>

text \<open>The loop never calls \<^verbatim>\<open>to_datetime\<close>: what it accepts does not depend on it.\<close>

lemma to_float_to_datetime: "to_float (L\<lparr>to_datetime := td\<rparr>) = to_float L"
  by (rule ext) (simp add: to_float_def)

lemma to_int_to_datetime: "to_int (L\<lparr>to_datetime := td\<rparr>) = to_int L"
  by (rule ext) (simp add: to_int_def)

lemma build_frame_to_datetime:
  "build_frame (L\<lparr>to_datetime := td\<rparr>) d = build_frame L d"
  by (simp add: build_frame_def to_float_to_datetime to_int_to_datetime)

lemma expand_packet_to_datetime:
  "expand_packet (L\<lparr>to_datetime := td\<rparr>) debug d = expand_packet L debug d"
  by (simp add: expand_packet_def build_frame_to_datetime)

lemma expand_all_to_datetime:
  "expand_all (L\<lparr>to_datetime := td\<rparr>) debug ds dfs = expand_all L debug ds dfs"
  by (induction ds arbitrary: dfs)
     (simp_all add: expand_packet_to_datetime split: expansion.splits)

text \<open>
  C8. When the paths pass the checks, the document loads, the loop ends with the frames
  \<open>dfs\<close>, their concatenation is \<open>df\<close> and \<^verbatim>\<open>to_datetime\<close> raises \<open>e\<close> on the
  timestamp column of \<open>df\<close>, the run ends with \<open>e\<close> uncaught, right after the number
  of records is printed: no report, no file. No packet is rejected for its timestamps:
  the loop gives the same frames whatever \<^verbatim>\<open>to_datetime\<close> does.
\<close>

theorem unparsable_timestamp_fails_run:
  assumes "last5 in_path = ''.json''" and "\<not> export \<or> last5 out_path = ''.gpkg''"
    and "load_json L in_path = Loaded packets"
    and "expand_all L debug packets [] = (dfs, evs, None)"
    and "concat_frames dfs = Inr df"
    and "str_column df ''timestamp'' = Inr ts"
    and "to_datetime L ts = Inl e"
  shows "parse_data L in_path out_path export report debug =
           \<lparr>printed = PrintRetrieved (length packets) # evs @ [PrintRecords (nrows df)],
            status = Uncaught e, written = None\<rparr> \<and>
         expand_all (L\<lparr>to_datetime := td\<rparr>) debug packets [] = (dfs, evs, None)"
  using assms
  by (auto simp: parse_data_def build_dataset_def fail_def parse_timestamps_def
      expand_all_to_datetime)

theorem unparsable_timestamp_fails_run_witness:
  "parse_data (sample_library [packet_A, packet_odd_time]) ''export.json'' ''traces.gpkg''
       True True False =
     \<lparr>printed = [PrintRetrieved 2, PrintRecords 3],
      status = Uncaught (ValueError (OtherCause ''Unknown datetime string format'')),
      written = None\<rparr> \<and>
   expand_all (sample_library [packet_A, packet_odd_time]\<lparr>to_datetime := (\<lambda>ts. Inr [])\<rparr>)
       False [packet_A, packet_odd_time] [] = ([frame_A, frame_odd_time], [], None)"
proof -
  let ?L = "sample_library [packet_A, packet_odd_time]"
  let ?ts = "[''2022-04-19 16:23:09'', ''2022-04-19 16:24:09'', ''half past four'']"
  let ?df = "[(''user_id'', StrCol [''A'', ''A'', ''D'']),
       (''longitude'', FloatCol [- 223 / 100, - 224 / 100, - 223 / 100 :: rat]),
       (''latitude'', FloatCol [5347 / 100, 5348 / 100, 5347 / 100]),
       (''timestamp'', StrCol ?ts),
       (''accuracy'', IntCol [5, 10, 5]),
       (''device_details'', StrCol [''Pixel 4'', ''Pixel 4'', ''Pixel 4''])]
       :: (rat, int) frame"
  have 1: "last5 ''export.json'' = ''.json''" by (simp add: last5_def)
  have 2: "\<not> True \<or> last5 ''traces.gpkg'' = ''.gpkg''" by (simp add: last5_def)
  have 3: "load_json ?L ''export.json'' = Loaded [packet_A, packet_odd_time]"
    by (simp add: sample_library_def)
  have 4: "expand_all ?L False [packet_A, packet_odd_time] [] =
     ([frame_A, frame_odd_time], [], None)"
    by (simp add: expand_packet_def build_frame_def packet_A_def packet_odd_time_def
        sample_library_def to_float_def to_int_def replace_comma
        sample_float_def sample_int_def DataFrame_def nrows_def frame_A_def
        frame_odd_time_def)
  have 5: "concat_frames [frame_A, frame_odd_time] = Inr ?df"
    by (simp add: frame_A_def frame_odd_time_def)
  have 6: "str_column ?df ''timestamp'' = Inr ?ts"
    by (simp add: str_column_def get_column_def)
  have 7: "to_datetime ?L ?ts =
      Inl (ValueError (OtherCause ''Unknown datetime string format''))"
    by (simp add: sample_library_def sample_datetime_def)
  from unparsable_timestamp_fails_run [OF 1 2 3 4 5 6 7, of True "\<lambda>ts. Inr []"]
  show ?thesis by (simp add: nrows_def)
qed

subsection \<open>Geometry\<close>

lemma map_of_set_column:
  "map_of (set_column df n c) k = (if k = n then Some c else map_of df k)"
  by (induction df) auto

lemma map_of_dropped:
  "map_of (filter (\<lambda>(n, c). n \<notin> S) df) k = (if k \<in> S then None else map_of df k)"
  by (induction df) auto

lemma height_filter: "height n df \<Longrightarrow> height n (filter P df)"
  by (simp add: height_def list_all_iff)

lemma height_column: "height n df \<Longrightarrow> map_of df k = Some c \<Longrightarrow> col_len c = n"
  by (auto simp: height_def list_all_iff dest!: map_of_SomeD)

lemma float_columnD: "float_column df k = Inr xs \<Longrightarrow> map_of df k = Some (FloatCol xs)"
  by (auto simp: float_column_def get_column_def getitem_def and_then_def
      split: option.splits column.splits)

lemma drop_columnsD:
  "drop_columns names df = Inr kept \<Longrightarrow> kept = filter (\<lambda>(n, c). n \<notin> set names) df"
  by (auto simp: drop_columns_def split: list.splits)

text \<open>
  C6. For a dataset of height \<open>n\<close> with float columns \<^verbatim>\<open>longitude\<close> and \<^verbatim>\<open>latitude\<close> and
  at least one other column, \<open>attach_geometry\<close> succeeds; the column \<^verbatim>\<open>geometry\<close> has
  one point per row, the point of row \<open>i\<close> has the longitude of row \<open>i\<close> as its first
  and the latitude of row \<open>i\<close> as its second coordinate, so that the pair
  (-2.23, 53.47) gives the point with x = -2.23 and y = 53.47; the result has no column
  \<^verbatim>\<open>longitude\<close> and no column \<^verbatim>\<open>latitude\<close>, its other columns are those of the
  dataset, and its reference system is the fixed one.
\<close>

theorem geometry_from_longitude_latitude:
  assumes "height n df"
    and "float_column df ''longitude'' = Inr lons"
    and "float_column df ''latitude'' = Inr lats"
    and "drop_columns [''longitude'', ''latitude''] df = Inr kept" and "kept \<noteq> []"
  shows "\<exists>gdf. attach_geometry df = Inr gdf \<and>
           get_column (table gdf) ''geometry'' = Inr (GeomCol (map Point (zip lons lats))) \<and>
           length (map Point (zip lons lats)) = n \<and>
           (\<forall>i<n. map Point (zip lons lats) ! i = \<lparr>px = lons ! i, py = lats ! i\<rparr>) \<and>
           Point (- 223 / 100, 5347 / 100) = \<lparr>px = - 223 / 100 :: rat, py = 5347 / 100\<rparr> \<and>
           map_of (table gdf) ''longitude'' = None \<and>
           map_of (table gdf) ''latitude'' = None \<and>
           (\<forall>k. k \<notin> {''longitude'', ''latitude'', ''geometry''} \<longrightarrow>
                map_of (table gdf) k = map_of df k) \<and>
           crs gdf = ''+proj=longlat +datum=WGS84 +no_defs''"
proof -
  have l1: "length lons = n"
    using height_column [OF assms(1) float_columnD [OF assms(2)]] by simp
  have l2: "length lats = n"
    using height_column [OF assms(1) float_columnD [OF assms(3)]] by simp
  have kept: "kept = filter (\<lambda>(k, c). k \<notin> set [''longitude'', ''latitude'']) df"
    using drop_columnsD [OF assms(4)] .
  have md: "map_of kept k =
      (if k \<in> set [''longitude'', ''latitude''] then None else map_of df k)" for k
    unfolding kept by (rule map_of_dropped)
  have "height n kept" unfolding kept using assms(1) by (rule height_filter)
  then have nk: "nrows kept = n" using assms(5) by (rule nrows_height)
  let ?g = "\<lparr>table = set_column kept ''geometry'' (GeomCol (map Point (zip lons lats))),
             crs = ''+proj=longlat +datum=WGS84 +no_defs''\<rparr>"
  have run: "attach_geometry df = Inr ?g"
    using assms(2-4) l1 l2 nk by (simp add: attach_geometry_def GeoDataFrame_def)
  have "get_column (table ?g) ''geometry'' = Inr (GeomCol (map Point (zip lons lats)))"
    by (simp add: get_column_def map_of_set_column)
  moreover have "length (map Point (zip lons lats)) = n" using l1 l2 by simp
  moreover have "\<forall>i<n. map Point (zip lons lats) ! i = \<lparr>px = lons ! i, py = lats ! i\<rparr>"
    using l1 l2 by (simp add: Point_def)
  moreover have "Point (- 223 / 100, 5347 / 100) = \<lparr>px = - 223 / 100 :: rat, py = 5347 / 100\<rparr>"
    by (simp add: Point_def)
  moreover have "map_of (table ?g) ''longitude'' = None" "map_of (table ?g) ''latitude'' = None"
    by (simp_all add: map_of_set_column md)
  moreover have "\<forall>k. k \<notin> {''longitude'', ''latitude'', ''geometry''} \<longrightarrow>
                map_of (table ?g) k = map_of df k"
    by (simp add: map_of_set_column md)
  ultimately show ?thesis using run by simp
qed

theorem geometry_from_longitude_latitude_witness:
  "\<exists>gdf. attach_geometry dataset_AB = Inr gdf \<and>
     get_column (table gdf) ''geometry'' =
       Inr (GeomCol (map Point (zip [- 223 / 100, - 224 / 100, - 224 / 100]
                                     [5347 / 100, 5348 / 100, 5348 / 100]))) \<and>
     length (map Point (zip [- 223 / 100, - 224 / 100, - 224 / 100 :: rat]
                                     [5347 / 100, 5348 / 100, 5348 / 100 :: rat])) = 3 \<and>
     (\<forall>i<3. map Point (zip [- 223 / 100, - 224 / 100, - 224 / 100]
                                     [5347 / 100, 5348 / 100, 5348 / 100]) ! i =
         \<lparr>px = [- 223 / 100, - 224 / 100, - 224 / 100 :: rat] ! i,
          py = [5347 / 100, 5348 / 100, 5348 / 100 :: rat] ! i\<rparr>) \<and>
     Point (- 223 / 100, 5347 / 100) = \<lparr>px = - 223 / 100 :: rat, py = 5347 / 100\<rparr> \<and>
     map_of (table gdf) ''longitude'' = None \<and>
     map_of (table gdf) ''latitude'' = None \<and>
     (\<forall>k. k \<notin> {''longitude'', ''latitude'', ''geometry''} \<longrightarrow>
          map_of (table gdf) k = map_of dataset_AB k) \<and>
     crs gdf = ''+proj=longlat +datum=WGS84 +no_defs''"
  by (rule geometry_from_longitude_latitude
        [where kept = "[(''user_id'', StrCol [''A'', ''A'', ''B'']),
      (''timestamp'', TimeCol [Some 1650385389, Some 1650385449, Some 1650385509]),
      (''accuracy'', IntCol [5, 10, 12]),
      (''device_details'', StrCol [''Pixel 4'', ''Pixel 4'', ''iPhone 11''])]"])
     (simp_all add: dataset_AB_def height_def float_column_def get_column_def
        drop_columns_def)

subsection \<open>Exit status\<close>

lemma export_stage_status:
  "status (export_stage L out_path gdf out) = Finished \<or>
   (\<exists>e. status (export_stage L out_path gdf out) = Uncaught e)"
  by (simp add: export_stage_def fail_def split: option.splits error.splits)

lemma build_dataset_status:
  "status (build_dataset L out_path export report dfs out) = Finished \<or>
   (\<exists>e. status (build_dataset L out_path export report dfs out) = Uncaught e)"
  using export_stage_status [of L out_path]
  by (auto simp: build_dataset_def fail_def split: sum.splits prod.splits option.splits)

text \<open>The three calls of \<^verbatim>\<open>exit\<close> are the only ones, and all of them give status 1.\<close>

lemma parse_data_exit:
  "status (parse_data L in_path out_path export report debug) = Exit n \<longleftrightarrow>
     n = 1 \<and> (last5 in_path \<noteq> ''.json'' \<or> (export \<and> last5 out_path \<noteq> ''.gpkg'') \<or>
              load_json L in_path = NotFound)"
proof -
  have "status (build_dataset L out_path export report dfs out) \<noteq> Exit n" for dfs out
    using build_dataset_status [of L out_path export report dfs out] by auto
  then show ?thesis
    by (auto simp: parse_data_def fail_def split: load_result.splits prod.splits option.splits)
qed

text \<open>
  Nothing before the export reads \<^verbatim>\<open>to_file\<close>, so a run that completes when the write
  succeeds also completes when the write fails with \<^verbatim>\<open>DriverIOError\<close>.
\<close>

lemma to_float_to_file: "to_float (L\<lparr>to_file := f\<rparr>) = to_float L"
  by (rule ext) (simp add: to_float_def)

lemma to_int_to_file: "to_int (L\<lparr>to_file := f\<rparr>) = to_int L"
  by (rule ext) (simp add: to_int_def)

lemma build_frame_to_file: "build_frame (L\<lparr>to_file := f\<rparr>) d = build_frame L d"
  by (simp add: build_frame_def to_float_to_file to_int_to_file)

lemma expand_packet_to_file:
  "expand_packet (L\<lparr>to_file := f\<rparr>) debug d = expand_packet L debug d"
  by (simp add: expand_packet_def build_frame_to_file)

lemma expand_all_to_file:
  "expand_all (L\<lparr>to_file := f\<rparr>) debug ds dfs = expand_all L debug ds dfs"
  by (induction ds arbitrary: dfs)
     (simp_all add: expand_packet_to_file split: expansion.splits)

lemma parse_timestamps_to_file:
  "parse_timestamps (L\<lparr>to_file := f\<rparr>) df = parse_timestamps L df"
  by (simp add: parse_timestamps_def)

lemma report_stage_to_file:
  "report_stage (L\<lparr>to_file := f\<rparr>) gdf = report_stage L gdf"
  by (simp add: report_stage_def summarize_def sort_values_def)

lemma build_dataset_driver_failure:
  assumes "status (build_dataset (L\<lparr>to_file := (\<lambda>p g. None)\<rparr>) out_path export report dfs out)
             = Finished"
  shows "status (build_dataset (L\<lparr>to_file := (\<lambda>p g. Some (DriverIOError m))\<rparr>)
                   out_path export report dfs out) = Finished"
proof (cases "concat_frames dfs")
  case (Inl e)
  with assms show ?thesis by (simp add: build_dataset_def fail_def)
next
  case (Inr df)
  note df = this
  show ?thesis
  proof (cases "and_then (parse_timestamps L df) attach_geometry")
    case (Inl e)
    with assms df show ?thesis
      by (simp add: build_dataset_def fail_def parse_timestamps_to_file)
  next
    case (Inr gdf)
    note gdf = this
    obtain evs r where rs: "(if report then report_stage L gdf else ([], None)) = (evs, r)"
      by (cases "if report then report_stage L gdf else ([], None)") auto
    show ?thesis
    proof (cases r)
      case None
      with assms df gdf rs show ?thesis
        by (cases report; cases export)
           (simp_all add: build_dataset_def fail_def parse_timestamps_to_file
              report_stage_to_file export_stage_def)
    next
      case (Some e)
      with assms df gdf rs show ?thesis
        by (cases report)
           (simp_all add: build_dataset_def fail_def parse_timestamps_to_file
              report_stage_to_file)
    qed
  qed
qed

lemma driver_failure_not_fatal:
  assumes "status (parse_data (L\<lparr>to_file := (\<lambda>p g. None)\<rparr>)
                     in_path out_path export report debug) = Finished"
  shows "status (parse_data (L\<lparr>to_file := (\<lambda>p g. Some (DriverIOError m))\<rparr>)
                   in_path out_path export report debug) = Finished"
proof (cases "load_json L in_path")
  case NotFound
  with assms show ?thesis by (simp add: parse_data_def split: if_splits)
next
  case (LoadFailed e)
  with assms show ?thesis by (simp add: parse_data_def fail_def split: if_splits)
next
  case (Loaded packets)
  obtain dfs evs r where ea: "expand_all L debug packets [] = (dfs, evs, r)"
    by (cases "expand_all L debug packets []") auto
  show ?thesis
  proof (cases r)
    case None
    with assms Loaded ea show ?thesis
      using build_dataset_driver_failure [of L out_path export report dfs _ m]
      by (simp add: parse_data_def expand_all_to_file split: if_splits)
  next
    case (Some e)
    with assms Loaded ea show ?thesis
      by (simp add: parse_data_def fail_def expand_all_to_file split: if_splits)
  qed
qed

text \<open>
  C7, as stated, fails: a run on a document without packets passes the three checks
  and still ends with status 1, because \<^verbatim>\<open>concat\<close> raises and the interpreter turns an
  uncaught exception into status 1.
\<close>

theorem exit_status_counterexample:
  "exit_code (status (parse_data (sample_library []) ''export.json'' [] False True False)) = 1 \<and>
   \<not> (last5 ''export.json'' \<noteq> ''.json'' \<or> (False \<and> last5 [] \<noteq> ''.gpkg'') \<or>
      load_json (sample_library []) ''export.json'' = NotFound)"
  by code_simp

text \<open>
  C7, amended. The function calls \<^verbatim>\<open>exit(1)\<close> exactly when the input path does not end
  in \<^verbatim>\<open>.json\<close>, or export is requested and the output path does not end in \<^verbatim>\<open>.gpkg\<close>, or
  the input file is not found. The process ends with status 1 exactly in these cases
  and when an exception is left uncaught; it ends with status 0 exactly when the
  function runs to its end, and a run that reaches its end when the write succeeds
  also reaches it when the write fails with \<^verbatim>\<open>DriverIOError\<close>.
\<close>

theorem exit_status_of_run:
  "(status (parse_data L in_path out_path export report debug) = Exit 1 \<longleftrightarrow>
      last5 in_path \<noteq> ''.json'' \<or> (export \<and> last5 out_path \<noteq> ''.gpkg'') \<or>
      load_json L in_path = NotFound) \<and>
   (exit_code (status (parse_data L in_path out_path export report debug)) = 1 \<longleftrightarrow>
      last5 in_path \<noteq> ''.json'' \<or> (export \<and> last5 out_path \<noteq> ''.gpkg'') \<or>
      load_json L in_path = NotFound \<or>
      (\<exists>e. status (parse_data L in_path out_path export report debug) = Uncaught e)) \<and>
   (exit_code (status (parse_data L in_path out_path export report debug)) = 0 \<longleftrightarrow>
      status (parse_data L in_path out_path export report debug) = Finished) \<and>
   (status (parse_data (L\<lparr>to_file := (\<lambda>p g. None)\<rparr>)
              in_path out_path export report debug) = Finished \<longrightarrow>
    status (parse_data (L\<lparr>to_file := (\<lambda>p g. Some (DriverIOError m))\<rparr>)
              in_path out_path export report debug) = Finished)"
proof -
  let ?s = "status (parse_data L in_path out_path export report debug)"
  have ex: "?s = Exit n \<longleftrightarrow>
     n = 1 \<and> (last5 in_path \<noteq> ''.json'' \<or> (export \<and> last5 out_path \<noteq> ''.gpkg'') \<or>
              load_json L in_path = NotFound)" for n
    by (rule parse_data_exit)
  have 1: "?s = Exit 1 \<longleftrightarrow>
      last5 in_path \<noteq> ''.json'' \<or> (export \<and> last5 out_path \<noteq> ''.gpkg'') \<or>
      load_json L in_path = NotFound"
    using ex [of 1] by simp
  have 2: "exit_code ?s = 1 \<longleftrightarrow> ?s = Exit 1 \<or> (\<exists>e. ?s = Uncaught e)"
    using ex by (cases ?s) auto
  have 3: "exit_code ?s = 0 \<longleftrightarrow> ?s = Finished"
    using ex by (cases ?s) auto
  have 4: "status (parse_data (L\<lparr>to_file := (\<lambda>p g. None)\<rparr>)
              in_path out_path export report debug) = Finished \<longrightarrow>
    status (parse_data (L\<lparr>to_file := (\<lambda>p g. Some (DriverIOError m))\<rparr>)
              in_path out_path export report debug) = Finished"
    using driver_failure_not_fatal by blast
  show ?thesis using 1 2 3 4 by blast
qed

theorem exit_status_of_run_witness:
  "status (parse_data ((sample_library [packet_B])\<lparr>to_file := (\<lambda>p g. None)\<rparr>)
             ''export.json'' ''traces.gpkg'' True False False) = Finished \<and>
   exit_code (status (parse_data
       ((sample_library [packet_B])
          \<lparr>to_file := (\<lambda>p g. Some (DriverIOError ''sqlite3_open failed''))\<rparr>)
       ''export.json'' ''traces.gpkg'' True False False)) = 0"
proof -
  let ?L = "sample_library [packet_B]"
  have f: "status (parse_data (?L\<lparr>to_file := (\<lambda>p g. None)\<rparr>)
             ''export.json'' ''traces.gpkg'' True False False) = Finished"
    by code_simp
  have g: "status (parse_data
       (?L\<lparr>to_file := (\<lambda>p g. Some (DriverIOError ''sqlite3_open failed''))\<rparr>)
       ''export.json'' ''traces.gpkg'' True False False) = Finished"
    using exit_status_of_run [of ?L "''export.json''" "''traces.gpkg''" True False False
        "''sqlite3_open failed''"] f
    by blast
  show ?thesis
    using exit_status_of_run
      [of "?L\<lparr>to_file := (\<lambda>p g. Some (DriverIOError ''sqlite3_open failed''))\<rparr>"
        "''export.json''" "''traces.gpkg''" True False False "''sqlite3_open failed''"] f g
    by blast
qed

subsection \<open>The report\<close>

lemma descending_indexerD:
  assumes "descending_indexer ks ix"
  shows "distinct ix" "set ix = {..<length ks}"
    "sorted_wrt (\<lambda>a b. b \<le> a) (map (\<lambda>i. ks ! i) ix)"
proof -
  from assms have s: "sort ix = [0..<length ks]" by (simp add: descending_indexer_def)
  have "distinct (sort ix)" unfolding s by simp
  then show "distinct ix" by simp
  have "set (sort ix) = {..<length ks}" unfolding s by auto
  then show "set ix = {..<length ks}" by simp
  from assms show "sorted_wrt (\<lambda>a b. b \<le> a) (map (\<lambda>i. ks ! i) ix)"
    by (simp add: descending_indexer_def)
qed

lemma users_of_stats: "map user (user_stats_of uids ts) = group_keys uids"
  by (simp add: user_stats_of_def comp_def)

lemma counts_of_stats:
  "l \<in> set (user_stats_of uids ts) \<Longrightarrow>
     N_Logs l = length (non_null (group_of (user l) uids ts))"
  by (auto simp: user_stats_of_def)

lemma group_keys_distinct: "distinct (group_keys uids)" "set (group_keys uids) = set uids"
  by (simp_all add: group_keys_def)

lemma keys_of_devices: "map fst (first_devices uids devs) = group_keys uids"
  by (simp add: first_devices_def comp_def)

lemma sort_values_indexer:
  assumes "descending_indexer (map N_Logs tbl) (sort_indexer L (map N_Logs tbl))"
  shows "sort_values L tbl = Inr (map (\<lambda>i. tbl ! i) (sort_indexer L (map N_Logs tbl)))"
  using descending_indexerD(2) [OF assms]
  by (auto simp: sort_values_def Let_def list_all_iff)

lemma sorted_rows:
  assumes "descending_indexer (map N_Logs tbl) ix"
  shows "sorted_wrt (\<lambda>a b. N_Logs b \<le> N_Logs a) (map (\<lambda>i. tbl ! i) ix)"
proof -
  have b: "\<forall>i\<in>set ix. i < length tbl" using descending_indexerD(2) [OF assms] by auto
  have "sorted_wrt (\<lambda>i j. map N_Logs tbl ! j \<le> map N_Logs tbl ! i) ix"
    using descending_indexerD(3) [OF assms] by (simp add: sorted_wrt_map)
  then have "sorted_wrt (\<lambda>i j. N_Logs (tbl ! j) \<le> N_Logs (tbl ! i)) ix"
    by (rule sorted_wrt_mono_rel [rotated]) (use b in auto)
  then show ?thesis by (simp add: sorted_wrt_map)
qed

lemma permuted_rows:
  assumes "distinct ix" "set ix = {..<length xs}"
  shows "set (map (\<lambda>i. xs ! i) ix) = set xs"
    and "distinct xs \<Longrightarrow> distinct (map (\<lambda>i. xs ! i) ix)"
proof -
  have "set (map (\<lambda>i. xs ! i) ix) = (\<lambda>i. xs ! i) ` {..<length xs}"
    using assms(2) by simp
  also have "\<dots> = set xs"
    using nth_image [of "length xs" xs] by (simp add: lessThan_atLeast0)
  finally show "set (map (\<lambda>i. xs ! i) ix) = set xs" .
  assume "distinct xs"
  then have "inj_on (\<lambda>i. xs ! i) (set ix)"
    using assms(2) by (auto simp: inj_on_def nth_eq_iff_index_eq)
  then show "distinct (map (\<lambda>i. xs ! i) ix)"
    using assms(1) by (simp add: distinct_map)
qed

lemma unique_match:
  "distinct (map fst right) \<Longrightarrow> (k, d) \<in> set right \<Longrightarrow>
     filter (\<lambda>(k', d'). k' = k) right = [(k, d)]"
proof (induction right)
  case Nil
  then show ?case by simp
next
  case (Cons a right)
  show ?case
  proof (cases "fst a = k")
    case True
    with Cons.prems have "a = (k, d)" by (cases a) force
    moreover have "k \<notin> fst ` set right" using Cons.prems(1) True by simp
    then have "filter (\<lambda>(k', d'). k' = k) right = []"
      by (force simp: filter_empty_conv)
    ultimately show ?thesis by simp
  next
    case False
    with Cons show ?thesis by (cases a) auto
  qed
qed

text \<open>
  The inner join keeps the order of the left table when every left row has exactly one
  partner on the right.
\<close>

lemma merge_inner_rows:
  assumes "distinct (map fst right)" "\<forall>l\<in>set left. user l \<in> fst ` set right"
  shows "map user_id' (merge_inner left right) = map user left \<and>
         map N_Logs' (merge_inner left right) = map N_Logs left"
  using assms(2)
proof (induction left)
  case Nil
  then show ?case by (simp add: merge_inner_def)
next
  case (Cons l left)
  then obtain d where "(user l, d) \<in> set right" by auto
  from unique_match [OF assms(1) this]
  have "filter (\<lambda>(k, d). k = user l) right = [(user l, d)]" .
  moreover have "merge_inner (l # left) right =
      map (\<lambda>(k, d). \<lparr>user_id' = user l, First_Log' = First_Log l, Last_Log' = Last_Log l,
                      N_Logs' = N_Logs l, device_details' = d\<rparr>)
          (filter (\<lambda>(k, d). k = user l) right) @ merge_inner left right"
    by (simp add: merge_inner_def)
  ultimately show ?case using Cons by simp
qed

text \<open>
  Three different counts leave a descending sort no choice: for the counts 5, 12 and 1
  the indexer is 1, 0, 2 in every library.
\<close>

lemma indexer_5_12_1:
  assumes "descending_indexer [5, 12, 1] ix"
  shows "ix = [1, 0, 2]"
proof -
  from assms have s: "sort ix = [0, 1, 2]"
    by (simp add: descending_indexer_def upt_rec)
  have d: "distinct ix" "set ix = {0, 1, 2}" "length ix = 3"
  proof -
    have "distinct (sort ix)" unfolding s by simp
    then show "distinct ix" by simp
    have "set (sort ix) = {0, 1, 2}" unfolding s by auto
    then show "set ix = {0, 1, 2}" by simp
    have "length (sort ix) = 3" unfolding s by simp
    then show "length ix = 3" by simp
  qed
  from d(3) obtain a r1 where r1: "ix = a # r1" "length r1 = 2" by (cases ix) auto
  then obtain b r2 where r2: "r1 = b # r2" "length r2 = 1" by (cases r1) auto
  then obtain c where "r2 = [c]" by (cases r2) auto
  with r1 r2 have ix: "ix = [a, b, c]" by simp
  from assms ix have o: "[5, 12, 1 :: nat] ! b \<le> [5, 12, 1] ! a" "[5, 12, 1 :: nat] ! c \<le> [5, 12, 1] ! b"
    by (simp_all add: descending_indexer_def)
  have "a \<in> set ix" "b \<in> set ix" "c \<in> set ix" unfolding ix by simp_all
  then have m: "a = 0 \<or> a = 1 \<or> a = 2" "b = 0 \<or> b = 1 \<or> b = 2" "c = 0 \<or> c = 1 \<or> c = 2"
    unfolding d(2) by simp_all
  from d(1) have n: "a \<noteq> b" "a \<noteq> c" "b \<noteq> c" unfolding ix by simp_all
  show ?thesis unfolding ix using m n o by (elim disjE; simp)
qed

lemma report_ABC_order:
  fixes M :: "(rat, int) library"
  assumes "descending_indexer [5, 12, 1] (sort_indexer M [5, 12, 1])"
  shows "\<exists>tbl. summarize M report_ABC = Inr tbl \<and>
           map user_id' tbl = [''B'', ''A'', ''C''] \<and> map N_Logs' tbl = [12, 5, 1]"
proof -
  let ?uids = "replicate 5 ''A'' @ replicate 12 ''B'' @ [''C'']"
  let ?devs = "replicate 5 ''Pixel 4'' @ replicate 12 ''iPhone 11'' @ [''Pixel 4'']"
  let ?ts = "map (\<lambda>n. Some (1650385389 + int n)) [0..<18]"
  have 1: "time_column (table report_ABC) ''timestamp'' = Inr ?ts"
    by (simp add: report_ABC_def time_column_def get_column_def)
  have 2: "str_column (table report_ABC) ''user_id'' = Inr ?uids"
    by (simp add: report_ABC_def str_column_def get_column_def)
  have 3: "str_column (table report_ABC) ''device_details'' = Inr ?devs"
    by (simp add: report_ABC_def str_column_def get_column_def)
  have st: "user_stats_of ?uids ?ts =
      [\<lparr>user = ''A'', First_Log = Some 1650385389, Last_Log = Some 1650385393, N_Logs = 5\<rparr>,
       \<lparr>user = ''B'', First_Log = Some 1650385394, Last_Log = Some 1650385405, N_Logs = 12\<rparr>,
       \<lparr>user = ''C'', First_Log = Some 1650385406, Last_Log = Some 1650385406, N_Logs = 1\<rparr>]"
    by code_simp
  have fd: "first_devices ?uids ?devs =
      [(''A'', Some ''Pixel 4''), (''B'', Some ''iPhone 11''), (''C'', Some ''Pixel 4'')]"
    by code_simp
  have ix: "sort_indexer M [5, 12, 1] = [1, 0, 2]"
    using assms by (rule indexer_5_12_1)
  have sv: "sort_values M (user_stats_of ?uids ?ts) =
      Inr [\<lparr>user = ''B'', First_Log = Some 1650385394, Last_Log = Some 1650385405, N_Logs = 12\<rparr>,
           \<lparr>user = ''A'', First_Log = Some 1650385389, Last_Log = Some 1650385393, N_Logs = 5\<rparr>,
           \<lparr>user = ''C'', First_Log = Some 1650385406, Last_Log = Some 1650385406, N_Logs = 1\<rparr>]"
    unfolding st using ix by (simp add: sort_values_def)
  show ?thesis
    by (simp add: summarize_def 1 2 3 sv fd merge_inner_def)
qed

text \<open>
  C9, as stated, fails for the part on ties. \<^verbatim>\<open>sort_values\<close> is called without
  \<^verbatim>\<open>kind\<close>, and a descending sort need not keep the order of equal keys: with the
  library that sorts ascending and reverses, the users B and D, one record each, are
  grouped in the order B, D and reported in the order D, B.
\<close>

theorem tie_order_counterexample:
  "descending_indexer [1, 1] (sort_indexer (reversing_library [packet_B, packet_D]) [1, 1]) \<and>
   group_keys [''B'', ''D''] = [''B'', ''D''] \<and>
   printed (parse_data (reversing_library [packet_B, packet_D]) ''export.json'' []
              False True False) =
     [PrintRetrieved 2, PrintRecords 2, PrintBlank,
      PrintReport
        [\<lparr>user_id' = ''D'', First_Log' = Some 1650385389, Last_Log' = Some 1650385389,
           N_Logs' = 1, device_details' = Some ''Pixel 4''\<rparr>,
         \<lparr>user_id' = ''B'', First_Log' = Some 1650385509, Last_Log' = Some 1650385509,
           N_Logs' = 1, device_details' = Some ''iPhone 11''\<rparr>],
      PrintBlank]"
  by code_simp

text \<open>
  C9, amended. Whenever the library's sort is a descending sort of the counts, the
  report has one line for each user, its lines are in descending order of \<^verbatim>\<open>N_Logs\<close>,
  the count of a line is the number of dated records of its user, and the inner join
  keeps the order that \<^verbatim>\<open>sort_values\<close> gave. For the users A (5 records), B (12) and
  C (1) the order is B, A, C. Nothing is said on the order of users with equal counts.
\<close>

theorem report_sorted_by_count:
  assumes "time_column (table gdf) ''timestamp'' = Inr ts"
    and "str_column (table gdf) ''user_id'' = Inr uids"
    and "str_column (table gdf) ''device_details'' = Inr devs"
    and "descending_indexer (map N_Logs (user_stats_of uids ts))
           (sort_indexer L (map N_Logs (user_stats_of uids ts)))"
  shows "(\<exists>left tbl. sort_values L (user_stats_of uids ts) = Inr left \<and>
           summarize L gdf = Inr tbl \<and>
           sorted_wrt (\<lambda>a b. N_Logs b \<le> N_Logs a) left \<and>
           map user_id' tbl = map user left \<and> map N_Logs' tbl = map N_Logs left \<and>
           sorted_wrt (\<lambda>a b. N_Logs' b \<le> N_Logs' a) tbl \<and>
           distinct (map user_id' tbl) \<and> set (map user_id' tbl) = set uids \<and>
           (\<forall>l\<in>set left. N_Logs l = length (non_null (group_of (user l) uids ts)))) \<and>
         (descending_indexer [5, 12, 1] (sort_indexer M [5, 12, 1]) \<longrightarrow>
           (\<exists>tbl. summarize M report_ABC = Inr tbl \<and>
              map user_id' tbl = [''B'', ''A'', ''C''] \<and> map N_Logs' tbl = [12, 5, 1]))"
proof -
  let ?stats = "user_stats_of uids ts"
  let ?ix = "sort_indexer L (map N_Logs ?stats)"
  let ?left = "map (\<lambda>i. ?stats ! i) ?ix"
  let ?right = "first_devices uids devs"
  let ?tbl = "merge_inner ?left ?right"
  have len: "length ?stats = length (group_keys uids)"
    using users_of_stats [of uids ts] by (metis length_map)
  have ix: "distinct ?ix" "set ?ix = {..<length ?stats}"
    using descending_indexerD [OF assms(4)] by simp_all
  have sv: "sort_values L ?stats = Inr ?left"
    using assms(4) by (rule sort_values_indexer)
  have run: "summarize L gdf = Inr ?tbl"
    using assms(1-3) sv by (simp add: summarize_def)
  have sorted: "sorted_wrt (\<lambda>a b. N_Logs b \<le> N_Logs a) ?left"
    using assms(4) by (rule sorted_rows)
  have nth_user: "user (?stats ! i) = group_keys uids ! i" if "i < length ?stats" for i
    using that by (metis nth_map users_of_stats)
  have users: "map user ?left = map (\<lambda>i. group_keys uids ! i) ?ix"
  proof -
    have "\<forall>i\<in>set ?ix. user (?stats ! i) = group_keys uids ! i"
      using ix(2) nth_user by blast
    then show ?thesis by (simp add: comp_def)
  qed
  have ix': "set ?ix = {..<length (group_keys uids)}" using ix(2) len by simp
  have set_users: "set (map user ?left) = set uids"
    unfolding users using permuted_rows(1) [OF ix(1) ix'] group_keys_distinct(2) by simp
  have dist_users: "distinct (map user ?left)"
    unfolding users using permuted_rows(2) [OF ix(1) ix'] group_keys_distinct(1) by simp
  have sub: "set ?left \<subseteq> set ?stats"
  proof
    fix l assume "l \<in> set ?left"
    then obtain i where "i \<in> set ?ix" "l = ?stats ! i" by auto
    then show "l \<in> set ?stats" using ix(2) by simp
  qed
  have counts: "\<forall>l\<in>set ?left. N_Logs l = length (non_null (group_of (user l) uids ts))"
    using sub counts_of_stats by blast
  have "\<forall>l\<in>set ?left. user l \<in> fst ` set ?right"
  proof
    fix l assume "l \<in> set ?left"
    then have "user l \<in> user ` set ?left" by (rule imageI)
    then have "user l \<in> set (map user ?left)" by (simp only: set_map)
    then have "user l \<in> set (group_keys uids)" using set_users group_keys_distinct(2) by simp
    then show "user l \<in> fst ` set ?right" using keys_of_devices [of uids devs]
      by (metis set_map)
  qed
  moreover have "distinct (map fst ?right)"
    using keys_of_devices [of uids devs] group_keys_distinct(1) by simp
  ultimately have m: "map user_id' ?tbl = map user ?left" "map N_Logs' ?tbl = map N_Logs ?left"
    using merge_inner_rows by blast+
  have "sorted_wrt (\<lambda>a b. b \<le> a) (map N_Logs ?left)"
    using sorted by (simp add: sorted_wrt_map)
  then have "sorted_wrt (\<lambda>a b. b \<le> a) (map N_Logs' ?tbl)" using m(2) by simp
  then have st: "sorted_wrt (\<lambda>a b. N_Logs' b \<le> N_Logs' a) ?tbl" by (simp add: sorted_wrt_map)
  have du: "distinct (map user_id' ?tbl)" using dist_users by (simp only: m(1))
  have su: "set (map user_id' ?tbl) = set uids" using set_users by (simp only: m(1))
  have general: "\<exists>left tbl. sort_values L (user_stats_of uids ts) = Inr left \<and>
           summarize L gdf = Inr tbl \<and>
           sorted_wrt (\<lambda>a b. N_Logs b \<le> N_Logs a) left \<and>
           map user_id' tbl = map user left \<and> map N_Logs' tbl = map N_Logs left \<and>
           sorted_wrt (\<lambda>a b. N_Logs' b \<le> N_Logs' a) tbl \<and>
           distinct (map user_id' tbl) \<and> set (map user_id' tbl) = set uids \<and>
           (\<forall>l\<in>set left. N_Logs l = length (non_null (group_of (user l) uids ts)))"
    by (intro exI conjI) (rule sv run sorted m st du su counts)+
  show ?thesis using general report_ABC_order [of M] by blast
qed

theorem report_sorted_by_count_witness:
  "(\<exists>tbl. summarize (sample_library []) report_ABC = Inr tbl \<and>
         sorted_wrt (\<lambda>a b. N_Logs' b \<le> N_Logs' a) tbl \<and>
         distinct (map user_id' tbl) \<and>
         set (map user_id' tbl) = set (replicate 5 ''A'' @ replicate 12 ''B'' @ [''C''])) \<and>
   (\<exists>tbl. summarize (reversing_library []) report_ABC = Inr tbl \<and>
         map user_id' tbl = [''B'', ''A'', ''C''] \<and> map N_Logs' tbl = [12, 5, 1])"
proof -
  let ?uids = "replicate 5 ''A'' @ replicate 12 ''B'' @ [''C'']"
  let ?ts = "map (\<lambda>n. Some (1650385389 + int n)) [0..<18]"
  have 1: "time_column (table report_ABC) ''timestamp'' = Inr ?ts"
    by (simp add: report_ABC_def time_column_def get_column_def)
  have 2: "str_column (table report_ABC) ''user_id'' = Inr ?uids"
    by (simp add: report_ABC_def str_column_def get_column_def)
  have 3: "str_column (table report_ABC) ''device_details'' =
      Inr (replicate 5 ''Pixel 4'' @ replicate 12 ''iPhone 11'' @ [''Pixel 4''])"
    by (simp add: report_ABC_def str_column_def get_column_def)
  have 4: "descending_indexer (map N_Logs (user_stats_of ?uids ?ts))
           (sort_indexer (sample_library []) (map N_Logs (user_stats_of ?uids ?ts)))"
    by code_simp
  have 5: "descending_indexer [5, 12, 1] (sort_indexer (reversing_library []) [5, 12, 1])"
    by code_simp
  from report_sorted_by_count [OF 1 2 3 4, of "reversing_library []"] 5
  show ?thesis by blast
qed

end
